theory Spec2Isabelle
  imports Main "HOL-Library.Word" "HOL-Library.Sublist" "HOL-Library.Multiset"
begin

section \<open>Data model\<close>

text \<open>
  The adapter signs Solana transactions with an Internet Identity key. Byte buffers
  (\<^verbatim>\<open>Buffer\<close>, \<^verbatim>\<open>Uint8Array\<close>) are lists of octets. A \<^verbatim>\<open>PublicKey\<close> is its raw byte
  content; \<^verbatim>\<open>a.equals(b)\<close> is equality of that content.
\<close>

type_synonym bytes = "8 word list"

type_synonym PublicKey = "8 word list"

definition equals :: "PublicKey \<Rightarrow> PublicKey \<Rightarrow> bool" where
  "equals a b = (a = b)"

text \<open>
  Every \<^verbatim>\<open>throw\<close> of the source is a value: \<^verbatim>\<open>new WalletNotConnectedError()\<close>, or
  \<^verbatim>\<open>new Error(msg)\<close> with its message.
\<close>

datatype error = WalletNotConnectedError | Error string

text \<open>
  \<^verbatim>\<open>sign(bytes)\<close> of an identity returns a promise of the signature. The code awaits it,
  and for the legacy path it matters when the promise is fulfilled: either it is
  already fulfilled when it is awaited (the library's class computes the signature
  before its \<^verbatim>\<open>async sign\<close> returns), so that the code after the \<^verbatim>\<open>await\<close> runs before
  anything that was suspended later; or it is fulfilled later, after the caller that
  awaits the sign operation has resumed. The promise is taken to be fulfilled in the
  end, with the bytes it carries.
\<close>

datatype 'a promise = is_Fulfilled: Fulfilled 'a | Later 'a

fun awaited :: "'a promise \<Rightarrow> 'a" where
  "awaited (Fulfilled x) = x"
| "awaited (Later x) = x"

text \<open>
  \<^verbatim>\<open>Ed25519KeyIdentity\<close>: \<^verbatim>\<open>getPublicKey().toRaw()\<close> wrapped in \<^verbatim>\<open>new PublicKey(...)\<close>,
  and \<^verbatim>\<open>sign(bytes)\<close>.
\<close>

record Ed25519KeyIdentity =
  getPublicKey :: PublicKey
  sign :: "bytes \<Rightarrow> bytes promise"

record MessageHeader =
  numRequiredSignatures :: nat
  numReadonlySignedAccounts :: nat
  numReadonlyUnsignedAccounts :: nat

record CompiledInstruction =
  programIdIndex :: nat
  accountKeyIndexes :: "nat list"
  data :: bytes

record Message =
  header :: MessageHeader
  accountKeys :: "PublicKey list"
  compiledInstructions :: "CompiledInstruction list"

text \<open>The getter \<^verbatim>\<open>staticAccountKeys\<close> of a message.\<close>

definition staticAccountKeys :: "Message \<Rightarrow> PublicKey list" where
  "staticAccountKeys m = accountKeys m"

text \<open>A signature slot of a legacy transaction; \<^verbatim>\<open>null\<close> is \<open>None\<close>.\<close>

record SignaturePubkeyPair =
  signature :: "bytes option"
  publicKey :: PublicKey

text \<open>An instruction; each of its account keys comes with the flags \<^verbatim>\<open>isSigner\<close>, \<^verbatim>\<open>isWritable\<close>.\<close>

record TransactionInstruction =
  keys :: "(PublicKey \<times> bool \<times> bool) list"
  programId :: PublicKey
  instructionData :: bytes

record Transaction =
  signatures :: "SignaturePubkeyPair list"
  feePayer :: "PublicKey option"
  instructions :: "TransactionInstruction list"
  recentBlockhash :: "string option"

text \<open>
  A versioned transaction: its compiled message and the flat signature array (field
  \<^verbatim>\<open>signatures\<close>; named \<open>vsignatures\<close> here, the legacy record owning the other name).
  An array element that was never assigned is \<open>None\<close>.
\<close>

record VersionedTransaction =
  message :: Message
  vsignatures :: "bytes option list"

text \<open>
  What the code calls in \<^verbatim>\<open>@solana/web3.js\<close> and does not define: \<^verbatim>\<open>PublicKey.toString\<close>
  (which is \<^verbatim>\<open>toBase58\<close>), \<^verbatim>\<open>Transaction.compileMessage\<close> (which may throw an \<^verbatim>\<open>Error\<close>,
  given by its message) and \<^verbatim>\<open>Message.serialize\<close>. They are parameters of the model.
\<close>

record web3 =
  toBase58 :: "PublicKey \<Rightarrow> string"
  compileMessage :: "Transaction \<Rightarrow> string + Message"
  serialize :: "Message \<Rightarrow> bytes"

section \<open>Array operations of the language\<close>

text \<open>\<^verbatim>\<open>Array.prototype.findIndex\<close>: the first index whose element satisfies the predicate, or -1.\<close>

fun findIndex :: "('a \<Rightarrow> bool) \<Rightarrow> 'a list \<Rightarrow> int" where
  "findIndex P [] = - 1"
| "findIndex P (x # xs) =
     (if P x then 0 else (let r = findIndex P xs in if r < 0 then - 1 else r + 1))"

text \<open>\<^verbatim>\<open>Array.prototype.every\<close> with the callback's index argument.\<close>

definition every :: "('a \<Rightarrow> nat \<Rightarrow> bool) \<Rightarrow> 'a list \<Rightarrow> bool" where
  "every f xs = list_all (\<lambda>(x, index). f x index) (zip xs [0..<length xs])"

text \<open>\<^verbatim>\<open>slice(0, n)\<close>.\<close>

definition slice0 :: "'a list \<Rightarrow> nat \<Rightarrow> 'a list" where
  "slice0 xs n = take n xs"

text \<open>
  \<^verbatim>\<open>xs[i] = v\<close> on an array: an index past the end extends the array, the elements
  between staying unassigned.
\<close>

definition array_set :: "'a option list \<Rightarrow> nat \<Rightarrow> 'a \<Rightarrow> 'a option list" where
  "array_set xs i v =
     (if i < length xs then xs[i := Some v]
      else xs @ replicate (i - length xs) None @ [Some v])"

section \<open>The versioned path\<close>

text \<open>
  The \<^verbatim>\<open>for ... of\<close> loop of \<^verbatim>\<open>VersionedTransaction.prototype.sign_with_identity\<close>. Each
  signature is awaited inside the loop, so the loop goes on only when it has arrived,
  whenever that is, and a throw rejects the promise of the whole call; the transaction
  is returned as the loop left it.
\<close>

fun sign_with_identity_loop ::
  "web3 \<Rightarrow> bytes \<Rightarrow> PublicKey list \<Rightarrow> VersionedTransaction \<Rightarrow> Ed25519KeyIdentity list
     \<Rightarrow> (error + unit) \<times> VersionedTransaction" where
  "sign_with_identity_loop W messageData signerPubkeys this [] = (Inr (), this)"
| "sign_with_identity_loop W messageData signerPubkeys this (identity # identities) =
     (let identity_pubkey = getPublicKey identity;
          signerIndex = findIndex (\<lambda>pubkey. equals pubkey identity_pubkey) signerPubkeys
      in if \<not> (signerIndex \<ge> 0)
         then (Inl (Error (''Cannot sign with non signer key '' @ toBase58 W identity_pubkey)), this)
         else sign_with_identity_loop W messageData signerPubkeys
                (this\<lparr>vsignatures :=
                   array_set (vsignatures this) (nat signerIndex)
                     (awaited (sign identity messageData))\<rparr>)
                identities)"

definition VersionedTransaction_sign_with_identity ::
  "web3 \<Rightarrow> VersionedTransaction \<Rightarrow> Ed25519KeyIdentity list
     \<Rightarrow> (error + unit) \<times> VersionedTransaction" where
  "VersionedTransaction_sign_with_identity W this identities =
     (let messageData = serialize W (message this);
          signerPubkeys =
            slice0 (staticAccountKeys (message this))
              (numRequiredSignatures (header (message this)))
      in sign_with_identity_loop W messageData signerPubkeys this identities)"

section \<open>The legacy path\<close>

text \<open>
  \<^verbatim>\<open>Transaction.prototype._compile\<close>: the compiled message (or the error of
  \<^verbatim>\<open>compileMessage\<close>) and the transaction with its slot list kept or reset.
\<close>

definition Transaction_compile ::
  "web3 \<Rightarrow> Transaction \<Rightarrow> (error + Message) \<times> Transaction" where
  "Transaction_compile W this =
     (case compileMessage W this of
        Inl reason \<Rightarrow> (Inl (Error reason), this)
      | Inr msg \<Rightarrow>
          (let signedKeys =
                 slice0 (accountKeys msg) (numRequiredSignatures (header msg))
           in if length (signatures this) = length signedKeys \<and>
                 every (\<lambda>pair index. equals (signedKeys ! index) (publicKey pair))
                   (signatures this)
              then (Inr msg, this)
              else (Inr msg,
                    this\<lparr>signatures :=
                      map (\<lambda>publicKey. \<lparr>signature = None, publicKey = publicKey\<rparr>)
                        signedKeys\<rparr>)))"

text \<open>
  \<^verbatim>\<open>Transaction.prototype._addSignature\<close>: both checks come before the assignment, so a
  throw leaves the transaction as it was.
\<close>

definition Transaction_addSignature ::
  "web3 \<Rightarrow> Transaction \<Rightarrow> PublicKey \<Rightarrow> bytes \<Rightarrow> error + Transaction" where
  "Transaction_addSignature W this pubkey sig =
     (if length sig \<noteq> 64 then Inl (Error ''Assertion failed.'')
      else let index = findIndex (\<lambda>sigpair. equals pubkey (publicKey sigpair)) (signatures this)
           in if index < 0 then Inl (Error (''unknown signer: '' @ toBase58 W pubkey))
              else Inr (this\<lparr>signatures :=
                     (signatures this)
                       [nat index := (signatures this ! nat index)\<lparr>signature := Some sig\<rparr>]\<rparr>))"

text \<open>
  The body of \<^verbatim>\<open>_partialSignWithIdentity\<close> is
  \<^verbatim>\<open>identities.forEach(async (identity) => { ... this._addSignature(...) })\<close>.
  Each callback runs up to its \<^verbatim>\<open>await identity.sign(signData)\<close> and is suspended there;
  \<^verbatim>\<open>forEach\<close> drops the promise it returns. What is left of a callback is a
  continuation: the call of \<^verbatim>\<open>_addSignature\<close> with the identity's key and the signature
  that arrived. When it runs, a throw of \<^verbatim>\<open>_addSignature\<close> rejects the dropped promise
  only: the transaction stays as it was and the rejection is handled by nobody.
\<close>

datatype continuation = AddSignature (cont_key: PublicKey) (cont_sig: bytes)

fun resume :: "web3 \<Rightarrow> Transaction \<Rightarrow> continuation \<Rightarrow> Transaction \<times> error list" where
  "resume W this (AddSignature pubkey sig) =
     (case Transaction_addSignature W this pubkey sig of
        Inl e \<Rightarrow> (this, [e])
      | Inr this' \<Rightarrow> (this', []))"

text \<open>
  The \<^verbatim>\<open>forEach\<close> as the caller that awaits the sign operation finds it when it resumes.
  The continuation of a callback whose signature was already there has run by then,
  those in the order of the list; the continuation of a callback whose signature
  arrives later is still pending. The result is the transaction at that moment, the
  rejections so far, and the pending continuations.
\<close>

fun forEach_sign ::
  "web3 \<Rightarrow> bytes \<Rightarrow> Transaction \<Rightarrow> Ed25519KeyIdentity list
     \<Rightarrow> Transaction \<times> error list \<times> continuation list" where
  "forEach_sign W signData this [] = (this, [], [])"
| "forEach_sign W signData this (identity # identities) =
     (case sign identity signData of
        Later sig \<Rightarrow>
          (case forEach_sign W signData this identities of
             (this', unhandled, pending) \<Rightarrow>
               (this', unhandled, AddSignature (getPublicKey identity) sig # pending))
      | Fulfilled sig \<Rightarrow>
          (case resume W this (AddSignature (getPublicKey identity) sig) of
             (this1, rejected) \<Rightarrow>
               (case forEach_sign W signData this1 identities of
                  (this', unhandled, pending) \<Rightarrow> (this', rejected @ unhandled, pending))))"

text \<open>
  The pending continuations run later, one by one, in the order in which their
  signatures arrive, on the transaction as it is then.
\<close>

fun resume_all :: "web3 \<Rightarrow> Transaction \<Rightarrow> continuation list \<Rightarrow> Transaction \<times> error list" where
  "resume_all W this [] = (this, [])"
| "resume_all W this (c # cs) =
     (case resume W this c of
        (this1, rejected) \<Rightarrow>
          (case resume_all W this1 cs of
             (this', unhandled) \<Rightarrow> (this', rejected @ unhandled)))"

text \<open>What is left of the callback of an identity once its signature has arrived.\<close>

definition callback :: "bytes \<Rightarrow> Ed25519KeyIdentity \<Rightarrow> continuation" where
  "callback signData identity =
     AddSignature (getPublicKey identity) (awaited (sign identity signData))"

text \<open>
  \<^verbatim>\<open>_partialSignWithIdentity\<close> itself awaits nothing, so its own promise is fulfilled
  whatever the callbacks do.
\<close>

definition Transaction_partialSignWithIdentity ::
  "web3 \<Rightarrow> Transaction \<Rightarrow> Message \<Rightarrow> Ed25519KeyIdentity list
     \<Rightarrow> (error + unit) \<times> Transaction \<times> error list \<times> continuation list" where
  "Transaction_partialSignWithIdentity W this msg identities =
     (let signData = serialize W msg
      in case forEach_sign W signData this identities of
           (this', unhandled, pending) \<Rightarrow> (Inr (), this', unhandled, pending))"

text \<open>The deduplication loop of \<^verbatim>\<open>partial_sign_with_identity\<close>, with its \<^verbatim>\<open>seen\<close> set.\<close>

fun dedupe ::
  "web3 \<Rightarrow> string set \<Rightarrow> Ed25519KeyIdentity list \<Rightarrow> Ed25519KeyIdentity list
     \<Rightarrow> Ed25519KeyIdentity list" where
  "dedupe W seen uniqueSigners [] = uniqueSigners"
| "dedupe W seen uniqueSigners (identity # identities) =
     (let key = toBase58 W (getPublicKey identity)
      in if key \<in> seen then dedupe W seen uniqueSigners identities
         else dedupe W (insert key seen) (uniqueSigners @ [identity]) identities)"

text \<open>
  \<^verbatim>\<open>Transaction.prototype.partial_sign_with_identity\<close>. The call of
  \<^verbatim>\<open>_partialSignWithIdentity\<close> is not awaited: whatever its promise does, this one is
  fulfilled once the message compiled. The result is what the awaiting caller finds
  when it resumes: the outcome, the transaction, the rejections so far and the
  continuations still pending.
\<close>

definition Transaction_partial_sign_with_identity ::
  "web3 \<Rightarrow> Transaction \<Rightarrow> Ed25519KeyIdentity list
     \<Rightarrow> (error + unit) \<times> Transaction \<times> error list \<times> continuation list" where
  "Transaction_partial_sign_with_identity W this identities =
     (if length identities = 0 then (Inl (Error ''No signers''), this, [], [])
      else let uniqueSigners = dedupe W {} [] identities
           in case Transaction_compile W this of
                (Inl e, this1) \<Rightarrow> (Inl e, this1, [], [])
              | (Inr msg, this1) \<Rightarrow>
                  (case Transaction_partialSignWithIdentity W this1 msg uniqueSigners of
                     (_, this2, unhandled, pending) \<Rightarrow> (Inr (), this2, unhandled, pending)))"

section \<open>The adapter\<close>

datatype event = Emit_connect PublicKey | Emit_disconnect

text \<open>The private field \<^verbatim>\<open>#identity\<close>, and the events the adapter has emitted.\<close>

record IIWalletAdapter =
  identity :: "Ed25519KeyIdentity option"
  emitted :: "event list"

definition emit :: "IIWalletAdapter \<Rightarrow> event \<Rightarrow> IIWalletAdapter" where
  "emit this e = this\<lparr>emitted := emitted this @ [e]\<rparr>"

definition IIWalletAdapter_constructor :: "Ed25519KeyIdentity \<Rightarrow> IIWalletAdapter" where
  "IIWalletAdapter_constructor i = \<lparr>identity = Some i, emitted = []\<rparr>"

definition IIWalletAdapter_connecting :: "IIWalletAdapter \<Rightarrow> bool" where
  "IIWalletAdapter_connecting this = False"

definition IIWalletAdapter_publicKey :: "IIWalletAdapter \<Rightarrow> PublicKey option" where
  "IIWalletAdapter_publicKey this =
     (case identity this of None \<Rightarrow> None | Some i \<Rightarrow> Some (getPublicKey i))"

definition IIWalletAdapter_connect :: "IIWalletAdapter \<Rightarrow> (error + unit) \<times> IIWalletAdapter" where
  "IIWalletAdapter_connect this =
     (case identity this of
        None \<Rightarrow> (Inl WalletNotConnectedError, this)
      | Some i \<Rightarrow> (Inr (), emit this (Emit_connect (getPublicKey i))))"

definition IIWalletAdapter_disconnect :: "IIWalletAdapter \<Rightarrow> (error + unit) \<times> IIWalletAdapter" where
  "IIWalletAdapter_disconnect this = (Inr (), emit this Emit_disconnect)"

text \<open>
  Transactions are objects the caller owns: a store maps references to them, and
  \<^verbatim>\<open>signTransaction\<close> receives and returns a reference. \<^verbatim>\<open>isVersionedTransaction\<close> tells
  the two kinds apart.
\<close>

datatype tx = Legacy Transaction | Versioned VersionedTransaction

type_synonym ref = nat

type_synonym store = "ref \<Rightarrow> tx"

definition IIWalletAdapter_signTransaction ::
  "web3 \<Rightarrow> IIWalletAdapter \<Rightarrow> store \<Rightarrow> ref
     \<Rightarrow> (error + ref) \<times> store \<times> error list \<times> continuation list" where
  "IIWalletAdapter_signTransaction W this h transaction =
     (case identity this of
        None \<Rightarrow> (Inl WalletNotConnectedError, h, [], [])
      | Some i \<Rightarrow>
          (case h transaction of
             Versioned vtx \<Rightarrow>
               (case VersionedTransaction_sign_with_identity W vtx [i] of
                  (Inl e, vtx') \<Rightarrow> (Inl e, h(transaction := Versioned vtx'), [], [])
                | (Inr _, vtx') \<Rightarrow> (Inr transaction, h(transaction := Versioned vtx'), [], []))
           | Legacy ltx \<Rightarrow>
               (case Transaction_partial_sign_with_identity W ltx [i] of
                  (Inl e, ltx', unhandled, pending) \<Rightarrow>
                    (Inl e, h(transaction := Legacy ltx'), unhandled, pending)
                | (Inr _, ltx', unhandled, pending) \<Rightarrow>
                    (Inr transaction, h(transaction := Legacy ltx'), unhandled, pending))))"

text \<open>
  A continuation left pending by \<^verbatim>\<open>signTransaction\<close> holds the legacy transaction object
  it was created for. When it runs, it writes to that object in the store.
\<close>

definition resume_in_store ::
  "web3 \<Rightarrow> store \<Rightarrow> ref \<Rightarrow> continuation \<Rightarrow> store \<times> error list" where
  "resume_in_store W h transaction c =
     (case h transaction of
        Legacy ltx \<Rightarrow>
          (case resume W ltx c of
             (ltx', rejected) \<Rightarrow> (h(transaction := Legacy ltx'), rejected))
      | Versioned vtx \<Rightarrow> (h, []))"

text \<open>
  A caller uses an adapter through its three operations. \<^verbatim>\<open>signTransaction\<close> assigns no
  field of the adapter and emits nothing, so only the other two change its state.
\<close>

datatype call = Call_connect | Call_disconnect | Call_signTransaction store ref

fun after_call :: "web3 \<Rightarrow> IIWalletAdapter \<Rightarrow> call \<Rightarrow> IIWalletAdapter" where
  "after_call W this Call_connect = snd (IIWalletAdapter_connect this)"
| "after_call W this Call_disconnect = snd (IIWalletAdapter_disconnect this)"
| "after_call W this (Call_signTransaction h transaction) = this"

section \<open>Example values\<close>

text \<open>
  Two required signers \<open>keyA\<close> and \<open>keyB\<close>, a program account \<open>keyP\<close> and a stranger
  \<open>keyX\<close>, with the identities that own them (their signatures are there when
  awaited, as those of the library's class), and a library whose compiled message
  lists the two signers first.
\<close>

definition keyA :: PublicKey where "keyA = replicate 32 1"

definition keyB :: PublicKey where "keyB = replicate 32 2"

definition keyP :: PublicKey where "keyP = replicate 32 3"

definition keyX :: PublicKey where "keyX = replicate 32 4"

definition idA :: Ed25519KeyIdentity where
  "idA = \<lparr>getPublicKey = keyA, sign = (\<lambda>m. Fulfilled (replicate 64 10))\<rparr>"

definition idB :: Ed25519KeyIdentity where
  "idB = \<lparr>getPublicKey = keyB, sign = (\<lambda>m. Fulfilled (replicate 64 11))\<rparr>"

definition idX :: Ed25519KeyIdentity where
  "idX = \<lparr>getPublicKey = keyX, sign = (\<lambda>m. Fulfilled (replicate 64 12))\<rparr>"

text \<open>An identity for \<open>keyA\<close> whose signatures are one byte short.\<close>

definition idShort :: Ed25519KeyIdentity where
  "idShort = \<lparr>getPublicKey = keyA, sign = (\<lambda>m. Fulfilled (replicate 63 13))\<rparr>"

text \<open>An identity for \<open>keyA\<close> whose signature arrives after the caller has resumed.\<close>

definition idLate :: Ed25519KeyIdentity where
  "idLate = \<lparr>getPublicKey = keyA, sign = (\<lambda>m. Later (replicate 64 10))\<rparr>"

definition ex_toBase58 :: "PublicKey \<Rightarrow> string" where
  "ex_toBase58 k =
     (if k = keyA then ''4vJ9JU1bJJE96FWSJKvHsmmFADCg4gpZQff4P3bkLKi''
      else if k = keyB then ''8qbHbw2BbbTHBW1sbeqakYXVKRQM8Ne7pLK7m6CVfeR''
      else if k = keyP then ''CktRuQ2mttgRGkXJtyksdKHjUdc2C4TgDzyB98oEzy8''
      else if k = keyX then ''GgBaCs3NCBuZN12kCJgAW63ydqohFkHEdfdEXBPzLHq''
      else [])"

definition ex_message :: Message where
  "ex_message =
     \<lparr>header = \<lparr>numRequiredSignatures = 2, numReadonlySignedAccounts = 1,
                 numReadonlyUnsignedAccounts = 1\<rparr>,
      accountKeys = [keyA, keyB, keyP],
      compiledInstructions = [\<lparr>programIdIndex = 2, accountKeyIndexes = [0, 1], data = [7]\<rparr>]\<rparr>"

definition ex_web3 :: web3 where
  "ex_web3 =
     \<lparr>toBase58 = ex_toBase58,
      compileMessage = (\<lambda>t. Inr ex_message),
      serialize = (\<lambda>m. concat (accountKeys m))\<rparr>"

text \<open>A fresh transaction, and the same one with the slot of \<open>keyB\<close> already signed.\<close>

definition ex_tx :: Transaction where
  "ex_tx =
     \<lparr>signatures = [],
      feePayer = Some keyA,
      instructions =
        [\<lparr>keys = [(keyA, True, True), (keyB, True, False)], programId = keyP,
          instructionData = [7]\<rparr>],
      recentBlockhash = Some ''EETubP5AKHgjPAhzPAFcb8BAY1hMH639CWCFTqi3hq1k''\<rparr>"

definition ex_tx_cosigned :: Transaction where
  "ex_tx_cosigned =
     ex_tx\<lparr>signatures :=
       [\<lparr>signature = None, publicKey = keyA\<rparr>,
        \<lparr>signature = Some (replicate 64 11), publicKey = keyB\<rparr>]\<rparr>"

text \<open>The fresh transaction as the compile step leaves it.\<close>

definition ex_tx_compiled :: Transaction where
  "ex_tx_compiled =
     ex_tx\<lparr>signatures :=
       [\<lparr>signature = None, publicKey = keyA\<rparr>, \<lparr>signature = None, publicKey = keyB\<rparr>]\<rparr>"

definition ex_vtx :: VersionedTransaction where
  "ex_vtx =
     \<lparr>message = ex_message, vsignatures = [Some (replicate 64 0), Some (replicate 64 0)]\<rparr>"

section \<open>Facts about the array operations\<close>

lemma findIndex_ge: "- 1 \<le> findIndex P xs"
  by (induction xs) (auto simp: Let_def)

lemma findIndex_neg_iff: "findIndex P xs < 0 \<longleftrightarrow> (\<forall>x\<in>set xs. \<not> P x)"
proof (induction xs)
  case Nil
  show ?case by simp
next
  case (Cons x xs)
  have "- 1 \<le> findIndex P xs" by (rule findIndex_ge)
  with Cons show ?case by (auto simp: Let_def)
qed

lemma findIndex_nonneg:
  "0 \<le> findIndex P xs \<Longrightarrow> nat (findIndex P xs) < length xs \<and> P (xs ! nat (findIndex P xs))"
proof (induction xs)
  case Nil
  then show ?case by simp
next
  case (Cons x xs)
  show ?case
  proof (cases "P x")
    case True
    then show ?thesis by simp
  next
    case False
    with Cons.prems have nn: "0 \<le> findIndex P xs"
      by (simp add: Let_def split: if_splits)
    with Cons.IH have ih: "nat (findIndex P xs) < length xs \<and> P (xs ! nat (findIndex P xs))"
      by simp
    from nn have "nat (findIndex P xs + 1) = Suc (nat (findIndex P xs))" by simp
    with False nn ih show ?thesis by (simp add: Let_def)
  qed
qed

text \<open>
  On lists of equal length, the indexed \<open>every\<close> of \<open>Transaction_compile\<close> says that the
  slots declare the signer keys, one by one.
\<close>

lemma every_matches:
  assumes "length sigs = length ks"
  shows "every (\<lambda>pair index. equals (ks ! index) (publicKey pair)) sigs
           \<longleftrightarrow> map publicKey sigs = ks"
proof -
  have "every (\<lambda>pair index. equals (ks ! index) (publicKey pair)) sigs
          \<longleftrightarrow> (\<forall>i<length sigs. ks ! i = publicKey (sigs ! i))"
    unfolding every_def equals_def
    by (simp add: list_all_length)
  also have "\<dots> \<longleftrightarrow> map publicKey sigs = ks"
    using assms by (auto simp: list_eq_iff_nth_eq)
  finally show ?thesis .
qed

lemma ex_keys_differ:
  "keyA \<noteq> keyB" "keyB \<noteq> keyA" "keyA \<noteq> keyX" "keyX \<noteq> keyA"
  "keyB \<noteq> keyX" "keyX \<noteq> keyB" "keyA \<noteq> keyP" "keyP \<noteq> keyA"
  "keyB \<noteq> keyP" "keyP \<noteq> keyB" "keyX \<noteq> keyP" "keyP \<noteq> keyX"
  by (simp_all add: keyA_def keyB_def keyX_def keyP_def)

section \<open>What the compile step returns\<close>

lemma compile_slots:
  assumes "compileMessage W this = Inr msg"
  shows "Transaction_compile W this =
      (Inr msg,
       if map publicKey (signatures this) =
            slice0 (accountKeys msg) (numRequiredSignatures (header msg))
       then this
       else this\<lparr>signatures :=
              map (\<lambda>k. \<lparr>signature = None, publicKey = k\<rparr>)
                (slice0 (accountKeys msg) (numRequiredSignatures (header msg)))\<rparr>)"
proof (cases "length (signatures this) =
    length (slice0 (accountKeys msg) (numRequiredSignatures (header msg)))")
  case True
  then show ?thesis
    using assms every_matches [OF True]
    by (simp add: Transaction_compile_def Let_def)
next
  case False
  then have "map publicKey (signatures this) \<noteq>
      slice0 (accountKeys msg) (numRequiredSignatures (header msg))"
    by (metis length_map)
  with False show ?thesis
    using assms by (simp add: Transaction_compile_def Let_def)
qed

section \<open>Writing a signature into its slot\<close>

lemma findIndex_map: "findIndex (\<lambda>p. P (f p)) xs = findIndex P (map f xs)"
  by (induction xs) (simp_all add: Let_def)

lemma update_signature_keys:
  "map publicKey (S[n := (S ! n)\<lparr>signature := x\<rparr>]) = map publicKey S"
proof (cases "n < length S")
  case True
  then have "(map publicKey S)[n := publicKey (S ! n)] = map publicKey S"
    by (metis list_update_id nth_map)
  then show ?thesis by (simp add: map_update)
next
  case False
  then have "length S \<le> n" by simp
  then have "S[n := (S ! n)\<lparr>signature := x\<rparr>] = S" by (rule list_update_beyond)
  then show ?thesis by simp
qed

lemma findIndex_key:
  assumes "findIndex (equals k) K = int j"
  shows "j < length K" and "K ! j = k"
proof -
  from assms have nn: "0 \<le> findIndex (equals k) K" by simp
  from findIndex_nonneg [OF nn] assms
  show "j < length K" and "K ! j = k"
    by (simp_all add: equals_def)
qed

lemma findIndex_first:
  assumes "findIndex P xs = int n" and "j < n"
  shows "\<not> P (xs ! j)"
  using assms
proof (induction xs arbitrary: n j)
  case Nil
  then show ?case by simp
next
  case (Cons x xs)
  show ?case
  proof (cases "P x")
    case True
    with Cons.prems show ?thesis by simp
  next
    case False
    with Cons.prems have r: "findIndex P xs = int n - 1" "0 \<le> findIndex P xs"
      by (auto simp: Let_def split: if_splits)
    then obtain n' where n': "n = Suc n'" by (cases n) auto
    with r have ih: "findIndex P xs = int n'" by simp
    show ?thesis
    proof (cases j)
      case 0
      with False show ?thesis by simp
    next
      case (Suc j')
      with Cons.prems n' have "j' < n'" by simp
      from Cons.IH [OF ih this] Suc show ?thesis by simp
    qed
  qed
qed

lemma findIndex_member:
  assumes "k \<in> set K"
  shows "\<exists>j. findIndex (equals k) K = int j"
proof -
  have "\<not> findIndex (equals k) K < 0"
    using assms by (auto simp: findIndex_neg_iff equals_def)
  then have "findIndex (equals k) K = int (nat (findIndex (equals k) K))" by simp
  then show ?thesis ..
qed

lemma addSignature_eq:
  "Transaction_addSignature W t k s =
     (if length s \<noteq> 64 then Inl (Error ''Assertion failed.'')
      else if findIndex (equals k) (map publicKey (signatures t)) < 0
      then Inl (Error (''unknown signer: '' @ toBase58 W k))
      else Inr (t\<lparr>signatures :=
             (signatures t)[nat (findIndex (equals k) (map publicKey (signatures t))) :=
               (signatures t ! nat (findIndex (equals k) (map publicKey (signatures t))))
                 \<lparr>signature := Some s\<rparr>]\<rparr>))"
proof -
  have "findIndex (\<lambda>p. equals k (publicKey p)) (signatures t)
      = findIndex (equals k) (map publicKey (signatures t))"
    by (rule findIndex_map)
  then show ?thesis
    by (simp add: Transaction_addSignature_def Let_def)
qed

lemma resume_eq:
  "resume W t c =
     (if length (cont_sig c) \<noteq> 64 then (t, [Error ''Assertion failed.''])
      else if findIndex (equals (cont_key c)) (map publicKey (signatures t)) < 0
      then (t, [Error (''unknown signer: '' @ toBase58 W (cont_key c))])
      else (t\<lparr>signatures :=
             (signatures t)
               [nat (findIndex (equals (cont_key c)) (map publicKey (signatures t))) :=
                 (signatures t ! nat (findIndex (equals (cont_key c))
                    (map publicKey (signatures t))))\<lparr>signature := Some (cont_sig c)\<rparr>]\<rparr>,
            []))"
  by (cases c) (simp add: addSignature_eq)

lemma resume_frame:
  "fst (resume W t c) = t\<lparr>signatures := signatures (fst (resume W t c))\<rparr>"
  "map publicKey (signatures (fst (resume W t c))) = map publicKey (signatures t)"
  by (simp_all add: resume_eq update_signature_keys)

lemma resume_all_Cons:
  "fst (resume_all W t (c # cs)) = fst (resume_all W (fst (resume W t c)) cs)"
  "snd (resume_all W t (c # cs)) = snd (resume W t c) @ snd (resume_all W (fst (resume W t c)) cs)"
  by (simp_all add: case_prod_unfold)

lemma resume_all_append:
  "fst (resume_all W t (xs @ ys)) = fst (resume_all W (fst (resume_all W t xs)) ys)"
  "snd (resume_all W t (xs @ ys)) =
     snd (resume_all W t xs) @ snd (resume_all W (fst (resume_all W t xs)) ys)"
  by (induction xs arbitrary: t) (simp_all add: case_prod_unfold)

lemma resume_all_frame:
  "fst (resume_all W t cs) = t\<lparr>signatures := signatures (fst (resume_all W t cs))\<rparr>
   \<and> map publicKey (signatures (fst (resume_all W t cs))) = map publicKey (signatures t)"
proof (induction cs arbitrary: t)
  case Nil
  show ?case by simp
next
  case (Cons c cs)
  let ?t1 = "fst (resume W t c)"
  from Cons.IH [of ?t1] resume_frame [of W t c]
  show ?case
    unfolding resume_all_Cons
    by (metis (no_types, lifting) Transaction.surjective Transaction.update_convs(1))
qed

lemma resume_all_nth:
  assumes "j < length (signatures t)"
  shows "signature (signatures (fst (resume_all W t cs)) ! j) =
    (case rev (filter (\<lambda>c. length (cont_sig c) = 64 \<and>
                  findIndex (equals (cont_key c)) (map publicKey (signatures t)) = int j) cs) of
       [] \<Rightarrow> signature (signatures t ! j)
     | c # _ \<Rightarrow> Some (cont_sig c))"
  using assms
proof (induction cs arbitrary: t)
  case Nil
  show ?case by simp
next
  case (Cons c cs)
  let ?K = "map publicKey (signatures t)"
  let ?n = "findIndex (equals (cont_key c)) ?K"
  let ?P = "\<lambda>c. length (cont_sig c) = 64 \<and> findIndex (equals (cont_key c)) ?K = int j"
  define R where "R = rev (filter ?P cs)"
  define t1 where "t1 = fst (resume W t c)"
  have keys1: "map publicKey (signatures t1) = ?K"
    by (simp add: t1_def resume_frame(2))
  have len1: "j < length (signatures t1)"
    using Cons.prems keys1 by (metis length_map)
  have step: "fst (resume_all W t (c # cs)) = fst (resume_all W t1 cs)"
    by (simp only: t1_def resume_all_Cons)
  have ih: "signature (signatures (fst (resume_all W t1 cs)) ! j) =
      (case R of [] \<Rightarrow> signature (signatures t1 ! j) | c # _ \<Rightarrow> Some (cont_sig c))"
    using Cons.IH [OF len1] by (simp only: keys1 R_def)
  show ?case
  proof (cases "length (cont_sig c) = 64 \<and> 0 \<le> ?n")
    case False
    then have "t1 = t" by (auto simp: t1_def resume_eq)
    moreover from False have "\<not> ?P c" by auto
    then have "rev (filter ?P (c # cs)) = R" by (simp add: R_def)
    ultimately show ?thesis using ih by (simp only: step)
  next
    case True
    have at1: "signature (signatures t1 ! j) =
        (if nat ?n = j then Some (cont_sig c) else signature (signatures t ! j))"
      using Cons.prems True by (simp add: t1_def resume_eq nth_list_update)
    have pc: "?P c \<longleftrightarrow> nat ?n = j"
      using True by auto
    have f: "rev (filter ?P (c # cs)) = R @ (if nat ?n = j then [c] else [])"
      using pc by (simp add: R_def)
    have "signature (signatures (fst (resume_all W t1 cs)) ! j) =
        (case R @ (if nat ?n = j then [c] else []) of
           [] \<Rightarrow> signature (signatures t ! j)
         | c # _ \<Rightarrow> Some (cont_sig c))"
      unfolding ih at1 by (cases R) simp_all
    then show ?thesis by (simp only: step f)
  qed
qed

lemma resume_all_unhandled:
  "snd (resume_all W t cs) =
     map (\<lambda>c. if length (cont_sig c) \<noteq> 64 then Error ''Assertion failed.''
               else Error (''unknown signer: '' @ toBase58 W (cont_key c)))
       (filter (\<lambda>c. length (cont_sig c) \<noteq> 64 \<or>
                  findIndex (equals (cont_key c)) (map publicKey (signatures t)) < 0) cs)"
proof (induction cs arbitrary: t)
  case Nil
  show ?case by simp
next
  case (Cons c cs)
  have "map publicKey (signatures (fst (resume W t c))) = map publicKey (signatures t)"
    by (rule resume_frame)
  with Cons.IH [of "fst (resume W t c)"] show ?case
    unfolding resume_all_Cons by (simp add: resume_eq)
qed

lemma resume_lengths:
  assumes "\<forall>p\<in>set (signatures t). \<forall>x. signature p = Some x \<longrightarrow> length x = 64"
  shows "\<forall>p\<in>set (signatures (fst (resume W t c))). \<forall>x. signature p = Some x \<longrightarrow> length x = 64"
proof
  let ?n = "nat (findIndex (equals (cont_key c)) (map publicKey (signatures t)))"
  fix p assume p: "p \<in> set (signatures (fst (resume W t c)))"
  show "\<forall>x. signature p = Some x \<longrightarrow> length x = 64"
  proof (cases "fst (resume W t c) = t")
    case True
    with p assms show ?thesis by simp
  next
    case False
    then have len: "length (cont_sig c) = 64"
      and t': "signatures (fst (resume W t c)) =
        (signatures t)[?n := (signatures t ! ?n)\<lparr>signature := Some (cont_sig c)\<rparr>]"
      by (auto simp: resume_eq split: if_splits)
    from p have "p = (signatures t ! ?n)\<lparr>signature := Some (cont_sig c)\<rparr> \<or> p \<in> set (signatures t)"
      unfolding t' using set_update_subset_insert by fastforce
    with len assms show ?thesis by auto
  qed
qed

lemma resume_all_lengths:
  assumes "\<forall>p\<in>set (signatures t). \<forall>x. signature p = Some x \<longrightarrow> length x = 64"
  shows "\<forall>p\<in>set (signatures (fst (resume_all W t cs))).
           \<forall>x. signature p = Some x \<longrightarrow> length x = 64"
  using assms
proof (induction cs arbitrary: t)
  case Nil
  then show ?case by simp
next
  case (Cons c cs)
  from Cons.IH [OF resume_lengths [OF Cons.prems, of W c]] show ?case
    by (simp only: resume_all_Cons)
qed

lemma forEach_sign_resume:
  "forEach_sign W d t ids =
     (fst (resume_all W t (map (callback d) (filter (\<lambda>i. is_Fulfilled (sign i d)) ids))),
      snd (resume_all W t (map (callback d) (filter (\<lambda>i. is_Fulfilled (sign i d)) ids))),
      map (callback d) (filter (\<lambda>i. \<not> is_Fulfilled (sign i d)) ids))"
proof (induction ids arbitrary: t)
  case Nil
  show ?case by simp
next
  case (Cons i ids)
  show ?case
  proof (cases "sign i d")
    case (Later s)
    then show ?thesis using Cons.IH [of t] by (simp add: callback_def)
  next
    case (Fulfilled s)
    then have c: "callback d i = AddSignature (getPublicKey i) s"
      by (simp add: callback_def)
    show ?thesis
      using Fulfilled Cons.IH [of "fst (resume W t (AddSignature (getPublicKey i) s))"]
      by (simp add: c case_prod_unfold del: resume.simps)
  qed
qed

lemma upt_filter_card: "length (filter P [0..<n]) = card {j. j < n \<and> P j}"
proof -
  have "{i. i < length [0..<n] \<and> P ([0..<n] ! i)} = {j. j < n \<and> P j}"
    by auto
  then show ?thesis by (simp add: length_filter_conv_card)
qed

lemma resume_all_slots:
  assumes dist: "distinct (map cont_key cs)"
    and valid: "\<forall>c\<in>set cs. length (cont_sig c) = 64
                  \<and> cont_key c \<in> set (map publicKey (signatures t))"
  shows "snd (resume_all W t cs) = []"
    and "\<forall>c\<in>set cs. \<exists>n. findIndex (equals (cont_key c)) (map publicKey (signatures t)) = int n
            \<and> signature (signatures (fst (resume_all W t cs)) ! n) = Some (cont_sig c)"
    and "\<forall>j<length (signatures t).
            (\<forall>c\<in>set cs. findIndex (equals (cont_key c)) (map publicKey (signatures t)) \<noteq> int j)
            \<longrightarrow> signature (signatures (fst (resume_all W t cs)) ! j)
                  = signature (signatures t ! j)"
    and "length (filter (\<lambda>p. signature p \<noteq> None) (signatures (fst (resume_all W t cs)))) =
          length cs +
          length (filter (\<lambda>j. signature (signatures t ! j) \<noteq> None \<and>
                    (\<forall>c\<in>set cs. findIndex (equals (cont_key c))
                       (map publicKey (signatures t)) \<noteq> int j))
                  [0..<length (signatures t)])"
proof -
  let ?K = "map publicKey (signatures t)"
  let ?S = "signatures (fst (resume_all W t cs))"
  let ?slot = "\<lambda>c. findIndex (equals (cont_key c)) ?K"
  have keys: "map publicKey ?S = ?K"
    using resume_all_frame [of W t cs] by simp
  then have len: "length ?S = length (signatures t)"
    by (metis length_map)
  have inj: "inj_on cont_key (set cs)" and dcs: "distinct cs"
    using dist by (simp_all add: distinct_map)
  have slot_of: "\<exists>j. ?slot c = int j" if "c \<in> set cs" for c
    using valid that findIndex_member by blast
  have same: "c' = c" if "c \<in> set cs" "c' \<in> set cs" "?slot c = int j" "?slot c' = int j"
    for c c' j
  proof -
    from findIndex_key(2) [OF that(3)] findIndex_key(2) [OF that(4)]
    have "cont_key c = cont_key c'" by simp
    with inj that(1,2) show ?thesis by (simp add: inj_on_def)
  qed
  have at: "signature (?S ! j) =
      (case rev (filter (\<lambda>c. ?slot c = int j) cs) of
         [] \<Rightarrow> signature (signatures t ! j) | c # _ \<Rightarrow> Some (cont_sig c))"
    if "j < length (signatures t)" for j
  proof -
    have "filter (\<lambda>c. length (cont_sig c) = 64 \<and> ?slot c = int j) cs
        = filter (\<lambda>c. ?slot c = int j) cs"
      using valid by (auto intro: filter_cong)
    then show ?thesis
      using resume_all_nth [OF that, of W cs] by (simp only:)
  qed
  have filled: "signature (?S ! j) = Some (cont_sig c)"
    if "c \<in> set cs" "?slot c = int j" for c j
  proof -
    have j: "j < length (signatures t)"
      using findIndex_key(1) [OF that(2)] by simp
    have "set (filter (\<lambda>c. ?slot c = int j) cs) = {c}"
      using that same by auto
    then have "set (rev (filter (\<lambda>c. ?slot c = int j) cs)) = {c}" by simp
    then obtain xs where "rev (filter (\<lambda>c. ?slot c = int j) cs) = c # xs"
      by (cases "rev (filter (\<lambda>c. ?slot c = int j) cs)") auto
    with at [OF j] show ?thesis by simp
  qed
  have kept: "signature (?S ! j) = signature (signatures t ! j)"
    if "j < length (signatures t)" "\<forall>c\<in>set cs. ?slot c \<noteq> int j" for j
  proof -
    have "filter (\<lambda>c. ?slot c = int j) cs = []"
      using that(2) by (simp add: filter_empty_conv)
    with at [OF that(1)] show ?thesis by simp
  qed
  show "snd (resume_all W t cs) = []"
  proof -
    have "filter (\<lambda>c. length (cont_sig c) \<noteq> 64 \<or> ?slot c < 0) cs = []"
      using valid slot_of by (fastforce simp: filter_empty_conv)
    then show ?thesis by (simp add: resume_all_unhandled)
  qed
  show "\<forall>c\<in>set cs. \<exists>n. ?slot c = int n \<and> signature (?S ! n) = Some (cont_sig c)"
    using slot_of filled by blast
  show "\<forall>j<length (signatures t). (\<forall>c\<in>set cs. ?slot c \<noteq> int j)
      \<longrightarrow> signature (?S ! j) = signature (signatures t ! j)"
    using kept by blast
  show "length (filter (\<lambda>p. signature p \<noteq> None) ?S) =
      length cs +
      length (filter (\<lambda>j. signature (signatures t ! j) \<noteq> None \<and> (\<forall>c\<in>set cs. ?slot c \<noteq> int j))
        [0..<length (signatures t)])"
  proof -
    let ?A = "(\<lambda>c. nat (?slot c)) ` set cs"
    let ?B = "{j. j < length (signatures t) \<and>
      (signature (signatures t ! j) \<noteq> None \<and> (\<forall>c\<in>set cs. ?slot c \<noteq> int j))}"
    have split: "{j. j < length ?S \<and> signature (?S ! j) \<noteq> None} = ?A \<union> ?B"
    proof (intro set_eqI iffI)
      fix j assume "j \<in> {j. j < length ?S \<and> signature (?S ! j) \<noteq> None}"
      then have j: "j < length (signatures t)" "signature (?S ! j) \<noteq> None"
        using len by simp_all
      show "j \<in> ?A \<union> ?B"
      proof (cases "\<exists>c\<in>set cs. ?slot c = int j")
        case True
        then obtain c where "c \<in> set cs" "?slot c = int j" by blast
        then have "j \<in> ?A" by force
        then show ?thesis ..
      next
        case False
        with kept [OF j(1)] j show ?thesis by simp
      qed
    next
      fix j assume "j \<in> ?A \<union> ?B"
      then show "j \<in> {j. j < length ?S \<and> signature (?S ! j) \<noteq> None}"
      proof
        assume "j \<in> ?A"
        then obtain c where c: "c \<in> set cs" "j = nat (?slot c)" by auto
        with slot_of [OF c(1)] have s: "?slot c = int j" by auto
        from findIndex_key(1) [OF s] filled [OF c(1) s] len show ?thesis by simp
      next
        assume "j \<in> ?B"
        with kept [of j] len show ?thesis by simp
      qed
    qed
    have disj: "?A \<inter> ?B = {}"
    proof (rule ccontr)
      assume "?A \<inter> ?B \<noteq> {}"
      then obtain j where "j \<in> ?A" "j \<in> ?B" by blast
      then obtain c where c: "c \<in> set cs" "j = nat (?slot c)"
        and n: "\<forall>c\<in>set cs. ?slot c \<noteq> int j" by auto
      from slot_of [OF c(1)] c(2) have "?slot c = int j" by auto
      with n c(1) show False by blast
    qed
    have "inj_on (\<lambda>c. nat (?slot c)) (set cs)"
    proof (rule inj_onI)
      fix c c' assume a: "c \<in> set cs" "c' \<in> set cs" "nat (?slot c) = nat (?slot c')"
      from slot_of [OF a(1)] obtain j where j: "?slot c = int j" ..
      from slot_of [OF a(2)] obtain j' where j': "?slot c' = int j'" ..
      from a(3) j j' have "j = j'" by simp
      with same [OF a(2) a(1) j'] j show "c = c'" by simp
    qed
    then have cardA: "card ?A = length cs"
      using dcs by (simp add: card_image distinct_card)
    have "card (?A \<union> ?B) = card ?A + card ?B"
      using disj by (intro card_Un_disjoint) simp_all
    moreover have "length (filter (\<lambda>p. signature p \<noteq> None) ?S) =
        card {j. j < length ?S \<and> signature (?S ! j) \<noteq> None}"
      by (rule length_filter_conv_card)
    moreover have "length (filter (\<lambda>j. signature (signatures t ! j) \<noteq> None \<and>
          (\<forall>c\<in>set cs. ?slot c \<noteq> int j)) [0..<length (signatures t)]) = card ?B"
      by (rule upt_filter_card)
    ultimately show ?thesis
      using split cardA by (simp only:)
  qed
qed

section \<open>Deduplication and the legacy sign operation\<close>

lemma dedupe_acc: "dedupe W seen acc ids = acc @ dedupe W seen [] ids"
proof (induction ids arbitrary: seen acc)
  case Nil
  show ?case by simp
next
  case (Cons i ids)
  show ?case
  proof (cases "toBase58 W (getPublicKey i) \<in> seen")
    case True
    then show ?thesis using Cons.IH [of seen acc] by simp
  next
    case False
    then show ?thesis
      using Cons.IH [of "insert (toBase58 W (getPublicKey i)) seen" "acc @ [i]"]
        Cons.IH [of "insert (toBase58 W (getPublicKey i)) seen" "[i]"]
      by simp
  qed
qed

lemma dedupe_Cons:
  "dedupe W seen [] (i # ids) =
     (if toBase58 W (getPublicKey i) \<in> seen then dedupe W seen [] ids
      else i # dedupe W (insert (toBase58 W (getPublicKey i)) seen) [] ids)"
  using dedupe_acc [of W "insert (toBase58 W (getPublicKey i)) seen" "[i]" ids]
  by simp




lemma dedupe_id:
  assumes "distinct (map (\<lambda>i. toBase58 W (getPublicKey i)) ids)"
    and "(\<lambda>i. toBase58 W (getPublicKey i)) ` set ids \<inter> seen = {}"
  shows "dedupe W seen [] ids = ids"
  using assms
proof (induction ids arbitrary: seen)
  case Nil
  show ?case by simp
next
  case (Cons i ids)
  from Cons.prems have "toBase58 W (getPublicKey i) \<notin> seen" by auto
  moreover from Cons.prems
  have "dedupe W (insert (toBase58 W (getPublicKey i)) seen) [] ids = ids"
    by (intro Cons.IH) auto
  ultimately show ?case by (simp add: dedupe_Cons del: dedupe.simps(2))
qed



lemma legacy_sign_compile_fails:
  assumes "ids \<noteq> []" and "compileMessage W t = Inl reason"
  shows "Transaction_partial_sign_with_identity W t ids = (Inl (Error reason), t, [], [])"
  using assms
  by (simp add: Transaction_partial_sign_with_identity_def Transaction_compile_def)

lemma legacy_sign_compiled:
  assumes "ids \<noteq> []" and "compileMessage W t = Inr m"
  shows "Transaction_partial_sign_with_identity W t ids =
    (Inr (), forEach_sign W (serialize W m) (snd (Transaction_compile W t)) (dedupe W {} [] ids))"
  using assms(1) compile_slots [OF assms(2)]
  by (simp add: Transaction_partial_sign_with_identity_def
      Transaction_partialSignWithIdentity_def case_prod_unfold Let_def)



lemma compile_result:
  assumes "compileMessage W t = Inr m"
  shows "fst (Transaction_compile W t) = Inr m"
    and "signatures (snd (Transaction_compile W t)) =
      (if map publicKey (signatures t) = slice0 (accountKeys m) (numRequiredSignatures (header m))
       then signatures t
       else map (\<lambda>k. \<lparr>signature = None, publicKey = k\<rparr>)
              (slice0 (accountKeys m) (numRequiredSignatures (header m))))"
    and "map publicKey (signatures (snd (Transaction_compile W t))) =
      slice0 (accountKeys m) (numRequiredSignatures (header m))"
  using compile_slots [OF assms] by (simp_all add: comp_def)

lemma callbacks_mset:
  assumes "mset arrival = mset (map (callback d) (filter (\<lambda>i. \<not> is_Fulfilled (sign i d)) ids))"
  shows "mset (map (callback d) (filter (\<lambda>i. is_Fulfilled (sign i d)) ids) @ arrival)
    = mset (map (callback d) ids)"
proof -
  have "mset (filter (\<lambda>i. is_Fulfilled (sign i d)) ids)
      + mset (filter (\<lambda>i. \<not> is_Fulfilled (sign i d)) ids) = mset ids"
    by simp
  then have "image_mset (callback d) (mset (filter (\<lambda>i. is_Fulfilled (sign i d)) ids))
      + image_mset (callback d) (mset (filter (\<lambda>i. \<not> is_Fulfilled (sign i d)) ids))
      = image_mset (callback d) (mset ids)"
    by (metis image_mset_union)
  with assms show ?thesis by simp
qed

lemma legacy_sign_settled:
  assumes ne: "ids \<noteq> []"
    and cm: "compileMessage W t = Inr m"
    and dist: "distinct (map (\<lambda>i. toBase58 W (getPublicKey i)) ids)"
    and valid: "\<forall>i\<in>set ids.
        getPublicKey i \<in> set (slice0 (accountKeys m) (numRequiredSignatures (header m)))
        \<and> length (awaited (sign i (serialize W m))) = 64"
    and run: "Transaction_partial_sign_with_identity W t ids = (res, t', unhandled, pending)"
    and arr: "mset arrival = mset pending"
    and fin: "resume_all W t' arrival = (F, rejected)"
  shows "res = Inr ()" and "unhandled = []" and "rejected = []"
    and "pending = map (callback (serialize W m))
           (filter (\<lambda>i. \<not> is_Fulfilled (sign i (serialize W m))) ids)"
    and "map publicKey (signatures F) = slice0 (accountKeys m) (numRequiredSignatures (header m))"
    and "\<forall>i\<in>set ids. \<exists>n.
           findIndex (equals (getPublicKey i))
             (slice0 (accountKeys m) (numRequiredSignatures (header m))) = int n
           \<and> signature (signatures F ! n) = Some (awaited (sign i (serialize W m)))"
    and "\<forall>j<length (slice0 (accountKeys m) (numRequiredSignatures (header m))).
           (\<forall>i\<in>set ids. findIndex (equals (getPublicKey i))
              (slice0 (accountKeys m) (numRequiredSignatures (header m))) \<noteq> int j)
           \<longrightarrow> signature (signatures F ! j)
                = signature (signatures (snd (Transaction_compile W t)) ! j)"
    and "length (filter (\<lambda>p. signature p \<noteq> None) (signatures F)) =
           length ids +
           length (filter (\<lambda>j. signature (signatures (snd (Transaction_compile W t)) ! j) \<noteq> None \<and>
                     (\<forall>i\<in>set ids. findIndex (equals (getPublicKey i))
                        (slice0 (accountKeys m) (numRequiredSignatures (header m))) \<noteq> int j))
                   [0..<length (slice0 (accountKeys m) (numRequiredSignatures (header m)))])"
proof -
  let ?t1 = "snd (Transaction_compile W t)"
  let ?d = "serialize W m"
  let ?K = "slice0 (accountKeys m) (numRequiredSignatures (header m))"
  let ?now = "map (callback ?d) (filter (\<lambda>i. is_Fulfilled (sign i ?d)) ids)"
  define cs where "cs = ?now @ arrival"
  have u: "dedupe W {} [] ids = ids"
    using dist by (intro dedupe_id) simp_all
  have "Transaction_partial_sign_with_identity W t ids = (Inr (), forEach_sign W ?d ?t1 ids)"
    using legacy_sign_compiled [OF ne cm] by (simp only: u)
  with run have r: "res = Inr ()" "t' = fst (resume_all W ?t1 ?now)"
    "unhandled = snd (resume_all W ?t1 ?now)"
    "pending = map (callback ?d) (filter (\<lambda>i. \<not> is_Fulfilled (sign i ?d)) ids)"
    by (simp_all add: forEach_sign_resume)
  have keys1: "map publicKey (signatures ?t1) = ?K"
    using cm by (rule compile_result(3))
  then have len1: "length (signatures ?t1) = length ?K"
    by (metis length_map)
  have F: "F = fst (resume_all W ?t1 cs)"
    and rej: "unhandled @ rejected = snd (resume_all W ?t1 cs)"
    using fin by (simp_all add: cs_def resume_all_append r(2,3))
  have ms: "mset cs = mset (map (callback ?d) ids)"
    unfolding cs_def using arr r(4) by (intro callbacks_mset) simp
  then have setcs: "set cs = callback ?d ` set ids"
    by (metis mset_eq_setD set_map)
  have lencs: "length cs = length ids"
    using ms by (metis length_map mset_eq_length)
  have "map (\<lambda>i. toBase58 W (getPublicKey i)) ids = map (toBase58 W) (map getPublicKey ids)"
    by simp
  with dist have dk: "distinct (map getPublicKey ids)"
    by (metis distinct_map)
  have "mset (map cont_key cs) = mset (map cont_key (map (callback ?d) ids))"
    using ms by (metis mset_map)
  also have "map cont_key (map (callback ?d) ids) = map getPublicKey ids"
    by (simp add: callback_def)
  finally have dcs: "distinct (map cont_key cs)"
    using dk by (metis mset_eq_imp_distinct_iff)
  have vcs: "\<forall>c\<in>set cs. length (cont_sig c) = 64
      \<and> cont_key c \<in> set (map publicKey (signatures ?t1))"
    using valid by (simp add: setcs keys1 callback_def)
  note s = resume_all_slots [OF dcs vcs, of W]
  from s(1) rej show "unhandled = []" and "rejected = []" by simp_all
  show "res = Inr ()" by (rule r(1))
  show "pending = map (callback ?d) (filter (\<lambda>i. \<not> is_Fulfilled (sign i ?d)) ids)"
    by (rule r(4))
  show "map publicKey (signatures F) = ?K"
    using resume_all_frame [of W ?t1 cs] keys1 by (simp add: F)
  show "\<forall>i\<in>set ids. \<exists>n. findIndex (equals (getPublicKey i)) ?K = int n
           \<and> signature (signatures F ! n) = Some (awaited (sign i ?d))"
    using s(2) by (simp add: F setcs keys1 callback_def)
  show "\<forall>j<length ?K. (\<forall>i\<in>set ids. findIndex (equals (getPublicKey i)) ?K \<noteq> int j)
           \<longrightarrow> signature (signatures F ! j) = signature (signatures ?t1 ! j)"
    using s(3) by (simp add: F setcs keys1 len1 callback_def)
  show "length (filter (\<lambda>p. signature p \<noteq> None) (signatures F)) =
           length ids +
           length (filter (\<lambda>j. signature (signatures ?t1 ! j) \<noteq> None \<and>
                     (\<forall>i\<in>set ids. findIndex (equals (getPublicKey i)) ?K \<noteq> int j))
                   [0..<length ?K])"
    using s(4) by (simp add: F setcs keys1 len1 lencs callback_def)
qed

section \<open>The compile step\<close>

text \<open>
  C4. When \<open>compileMessage\<close> returns a message, \<open>_compile\<close> returns it, and: if the
  public keys declared by the transaction's slots are, in order, the first
  \<open>numRequiredSignatures\<close> account keys of the message (so there is one slot per required
  signer), the transaction is left as it is, signatures included; otherwise its slot
  list becomes those keys in message order, each with signature \<open>null\<close>. No other field
  changes.
\<close>

theorem compile_keeps_or_resets_slots:
  assumes "compileMessage W this = Inr msg"
  shows "Transaction_compile W this =
      (Inr msg,
       if map publicKey (signatures this) =
            slice0 (accountKeys msg) (numRequiredSignatures (header msg))
       then this
       else this\<lparr>signatures :=
              map (\<lambda>k. \<lparr>signature = None, publicKey = k\<rparr>)
                (slice0 (accountKeys msg) (numRequiredSignatures (header msg)))\<rparr>)"
  using assms by (rule compile_slots)

theorem compile_keeps_or_resets_slots_witness:
  "compileMessage ex_web3 ex_tx_cosigned = Inr ex_message
   \<and> Transaction_compile ex_web3 ex_tx_cosigned = (Inr ex_message, ex_tx_cosigned)
   \<and> compileMessage ex_web3 ex_tx = Inr ex_message
   \<and> Transaction_compile ex_web3 ex_tx =
       (Inr ex_message,
        ex_tx\<lparr>signatures :=
          [\<lparr>signature = None, publicKey = keyA\<rparr>, \<lparr>signature = None, publicKey = keyB\<rparr>]\<rparr>)"
proof -
  have c: "\<And>t. compileMessage ex_web3 t = Inr ex_message"
    by (simp add: ex_web3_def)
  have k: "slice0 (accountKeys ex_message) (numRequiredSignatures (header ex_message))
      = [keyA, keyB]"
    by (simp add: ex_message_def slice0_def)
  have "Transaction_compile ex_web3 ex_tx_cosigned = (Inr ex_message, ex_tx_cosigned)"
    using compile_keeps_or_resets_slots [OF c, of ex_tx_cosigned]
    by (simp add: k ex_tx_cosigned_def)
  moreover have "Transaction_compile ex_web3 ex_tx =
       (Inr ex_message,
        ex_tx\<lparr>signatures :=
          [\<lparr>signature = None, publicKey = keyA\<rparr>, \<lparr>signature = None, publicKey = keyB\<rparr>]\<rparr>)"
    using compile_keeps_or_resets_slots [OF c, of ex_tx]
    by (simp add: k ex_tx_def)
  ultimately show ?thesis using c by simp
qed

section \<open>Signing with no identity\<close>

text \<open>
  C2. The legacy sign operation called with no identity fails with the error
  \<open>No signers\<close>. It does so whatever the library's \<open>compileMessage\<close> would do (the
  result does not depend on it), and the transaction, its signature slots included, is
  the one received; nothing is rejected and no continuation is left pending.
\<close>

theorem no_signers_before_compile:
  "Transaction_partial_sign_with_identity W this [] = (Inl (Error ''No signers''), this, [], [])"
  by (simp add: Transaction_partial_sign_with_identity_def)

section \<open>The versioned path rejects a key that does not sign\<close>

lemma versioned_non_signer:
  assumes "getPublicKey i \<notin>
    set (slice0 (staticAccountKeys (message vtx)) (numRequiredSignatures (header (message vtx))))"
  shows "VersionedTransaction_sign_with_identity W vtx [i] =
    (Inl (Error (''Cannot sign with non signer key '' @ toBase58 W (getPublicKey i))), vtx)"
proof -
  have "findIndex (\<lambda>pubkey. equals pubkey (getPublicKey i))
          (slice0 (staticAccountKeys (message vtx))
             (numRequiredSignatures (header (message vtx)))) < 0"
    using assms by (auto simp: findIndex_neg_iff equals_def)
  then show ?thesis
    by (simp add: VersionedTransaction_sign_with_identity_def Let_def)
qed

text \<open>
  C3. If the identity's public key is not among the first \<open>numRequiredSignatures\<close> static
  account keys of a versioned transaction's message, signing it with that identity
  fails with the error \<open>Cannot sign with non signer key <key>\<close> and the transaction, its
  signature array included, is unchanged; so does the adapter's \<open>signTransaction\<close> on a
  reference to such a transaction, leaving the whole store unchanged.
\<close>

theorem versioned_unknown_signer:
  assumes "getPublicKey i \<notin>
    set (slice0 (staticAccountKeys (message vtx)) (numRequiredSignatures (header (message vtx))))"
    and "identity a = Some i" and "h r = Versioned vtx"
  shows "VersionedTransaction_sign_with_identity W vtx [i] =
      (Inl (Error (''Cannot sign with non signer key '' @ toBase58 W (getPublicKey i))), vtx)
    \<and> IIWalletAdapter_signTransaction W a h r =
      (Inl (Error (''Cannot sign with non signer key '' @ toBase58 W (getPublicKey i))), h, [], [])"
proof -
  have v: "VersionedTransaction_sign_with_identity W vtx [i] =
      (Inl (Error (''Cannot sign with non signer key '' @ toBase58 W (getPublicKey i))), vtx)"
    using assms(1) by (rule versioned_non_signer)
  have "h(r := Versioned vtx) = h"
    using assms(3) by auto
  with v assms(2,3) show ?thesis
    by (simp add: IIWalletAdapter_signTransaction_def)
qed

theorem versioned_unknown_signer_witness:
  "getPublicKey idX \<notin>
     set (slice0 (staticAccountKeys (message ex_vtx))
            (numRequiredSignatures (header (message ex_vtx))))
   \<and> VersionedTransaction_sign_with_identity ex_web3 ex_vtx [idX] =
      (Inl (Error ''Cannot sign with non signer key GgBaCs3NCBuZN12kCJgAW63ydqohFkHEdfdEXBPzLHq''),
       ex_vtx)
   \<and> IIWalletAdapter_signTransaction ex_web3 (IIWalletAdapter_constructor idX)
        (\<lambda>r. Versioned ex_vtx) 0 =
      (Inl (Error ''Cannot sign with non signer key GgBaCs3NCBuZN12kCJgAW63ydqohFkHEdfdEXBPzLHq''),
       (\<lambda>r. Versioned ex_vtx), [], [])"
proof -
  have n: "getPublicKey idX \<notin>
     set (slice0 (staticAccountKeys (message ex_vtx))
            (numRequiredSignatures (header (message ex_vtx))))"
    using ex_keys_differ
    by (simp add: idX_def ex_vtx_def ex_message_def staticAccountKeys_def slice0_def)
  have s: "toBase58 ex_web3 (getPublicKey idX) = ''GgBaCs3NCBuZN12kCJgAW63ydqohFkHEdfdEXBPzLHq''"
    using ex_keys_differ by (simp add: ex_web3_def ex_toBase58_def idX_def)
  have a: "identity (IIWalletAdapter_constructor idX) = Some idX"
    by (simp add: IIWalletAdapter_constructor_def)
  show ?thesis
    using versioned_unknown_signer
      [OF n a, of "\<lambda>r. Versioned ex_vtx" 0 ex_web3] n
    by (simp add: s)
qed

section \<open>Disconnecting\<close>

text \<open>
  C8. \<open>disconnect\<close> always returns normally, appends one \<open>disconnect\<close> event to what
  the adapter has emitted, and leaves the held identity as it was.
\<close>

theorem disconnect_keeps_identity:
  "IIWalletAdapter_disconnect this =
     (Inr (), this\<lparr>emitted := emitted this @ [Emit_disconnect]\<rparr>)
   \<and> identity (snd (IIWalletAdapter_disconnect this)) = identity this"
  by (simp add: IIWalletAdapter_disconnect_def emit_def)


section \<open>The legacy sign operation on the example transaction\<close>

lemma ex_compiled:
  "compileMessage ex_web3 t = Inr ex_message"
  "slice0 (accountKeys ex_message) (numRequiredSignatures (header ex_message)) = [keyA, keyB]"
  "snd (Transaction_compile ex_web3 ex_tx) = ex_tx_compiled"
  "snd (Transaction_compile ex_web3 ex_tx_cosigned) = ex_tx_cosigned"
proof -
  show c: "compileMessage ex_web3 t = Inr ex_message" for t
    by (simp add: ex_web3_def)
  show k: "slice0 (accountKeys ex_message) (numRequiredSignatures (header ex_message))
      = [keyA, keyB]"
    by (simp add: ex_message_def slice0_def)
  show "snd (Transaction_compile ex_web3 ex_tx) = ex_tx_compiled"
    using compile_slots [OF c, of ex_tx] by (simp add: k ex_tx_def ex_tx_compiled_def)
  show "snd (Transaction_compile ex_web3 ex_tx_cosigned) = ex_tx_cosigned"
    using compile_slots [OF c, of ex_tx_cosigned] by (simp add: k ex_tx_cosigned_def)
qed

lemma ex_sign_one:
  "Transaction_partial_sign_with_identity ex_web3 ex_tx [i] =
     (Inr (), forEach_sign ex_web3 (serialize ex_web3 ex_message) ex_tx_compiled [i])"
  "Transaction_partial_sign_with_identity ex_web3 ex_tx_cosigned [i] =
     (Inr (), forEach_sign ex_web3 (serialize ex_web3 ex_message) ex_tx_cosigned [i])"
proof -
  have ne: "[i] \<noteq> []" by simp
  have d: "dedupe ex_web3 {} [] [i] = [i]" by simp
  show "Transaction_partial_sign_with_identity ex_web3 ex_tx [i] =
     (Inr (), forEach_sign ex_web3 (serialize ex_web3 ex_message) ex_tx_compiled [i])"
    using legacy_sign_compiled [OF ne ex_compiled(1), of ex_tx] by (simp only: d ex_compiled(3))
  show "Transaction_partial_sign_with_identity ex_web3 ex_tx_cosigned [i] =
     (Inr (), forEach_sign ex_web3 (serialize ex_web3 ex_message) ex_tx_cosigned [i])"
    using legacy_sign_compiled [OF ne ex_compiled(1), of ex_tx_cosigned]
    by (simp only: d ex_compiled(4))
qed

lemma ex_resume:
  "resume ex_web3 ex_tx_compiled (AddSignature keyA (replicate 64 10)) =
     (ex_tx\<lparr>signatures :=
        [\<lparr>signature = Some (replicate 64 10), publicKey = keyA\<rparr>,
         \<lparr>signature = None, publicKey = keyB\<rparr>]\<rparr>, [])"
  "resume ex_web3 ex_tx_cosigned (AddSignature keyA (replicate 64 10)) =
     (ex_tx\<lparr>signatures :=
        [\<lparr>signature = Some (replicate 64 10), publicKey = keyA\<rparr>,
         \<lparr>signature = Some (replicate 64 11), publicKey = keyB\<rparr>]\<rparr>, [])"
  "resume ex_web3 ex_tx_compiled (AddSignature keyX (replicate 64 12)) =
     (ex_tx_compiled, [Error ''unknown signer: GgBaCs3NCBuZN12kCJgAW63ydqohFkHEdfdEXBPzLHq''])"
  "resume ex_web3 ex_tx_compiled (AddSignature keyA (replicate 63 13)) =
     (ex_tx_compiled, [Error ''Assertion failed.''])"
proof -
  have s: "toBase58 ex_web3 keyX = ''GgBaCs3NCBuZN12kCJgAW63ydqohFkHEdfdEXBPzLHq''"
    using ex_keys_differ by (simp add: ex_web3_def ex_toBase58_def)
  show "resume ex_web3 ex_tx_compiled (AddSignature keyA (replicate 64 10)) =
     (ex_tx\<lparr>signatures :=
        [\<lparr>signature = Some (replicate 64 10), publicKey = keyA\<rparr>,
         \<lparr>signature = None, publicKey = keyB\<rparr>]\<rparr>, [])"
    by (simp add: addSignature_eq equals_def ex_tx_compiled_def)
  show "resume ex_web3 ex_tx_cosigned (AddSignature keyA (replicate 64 10)) =
     (ex_tx\<lparr>signatures :=
        [\<lparr>signature = Some (replicate 64 10), publicKey = keyA\<rparr>,
         \<lparr>signature = Some (replicate 64 11), publicKey = keyB\<rparr>]\<rparr>, [])"
    by (simp add: addSignature_eq equals_def ex_tx_cosigned_def)
  show "resume ex_web3 ex_tx_compiled (AddSignature keyX (replicate 64 12)) =
     (ex_tx_compiled, [Error ''unknown signer: GgBaCs3NCBuZN12kCJgAW63ydqohFkHEdfdEXBPzLHq''])"
    using ex_keys_differ by (simp add: addSignature_eq equals_def ex_tx_compiled_def s)
  show "resume ex_web3 ex_tx_compiled (AddSignature keyA (replicate 63 13)) =
     (ex_tx_compiled, [Error ''Assertion failed.''])"
    by (simp add: addSignature_eq)
qed

lemma ex_sign_first:
  "Transaction_partial_sign_with_identity ex_web3 ex_tx [idA] =
     (Inr (),
      ex_tx\<lparr>signatures :=
        [\<lparr>signature = Some (replicate 64 10), publicKey = keyA\<rparr>,
         \<lparr>signature = None, publicKey = keyB\<rparr>]\<rparr>,
      [], [])"
  unfolding ex_sign_one by (simp add: idA_def ex_resume del: resume.simps)


lemma ex_sign_stranger:
  "Transaction_partial_sign_with_identity ex_web3 ex_tx [idX] =
     (Inr (), ex_tx_compiled,
      [Error ''unknown signer: GgBaCs3NCBuZN12kCJgAW63ydqohFkHEdfdEXBPzLHq''], [])"
  unfolding ex_sign_one by (simp add: idX_def ex_resume del: resume.simps)

lemma ex_sign_short:
  "Transaction_partial_sign_with_identity ex_web3 ex_tx [idShort] =
     (Inr (), ex_tx_compiled, [Error ''Assertion failed.''], [])"
  unfolding ex_sign_one by (simp add: idShort_def ex_resume del: resume.simps)

lemma ex_sign_late:
  "Transaction_partial_sign_with_identity ex_web3 ex_tx [idLate] =
     (Inr (), ex_tx_compiled, [], [AddSignature keyA (replicate 64 10)])"
  "Transaction_partial_sign_with_identity ex_web3 ex_tx_cosigned [idLate] =
     (Inr (), ex_tx_cosigned, [], [AddSignature keyA (replicate 64 10)])"
  unfolding ex_sign_one by (simp_all add: idLate_def)

lemma ex_store_update:
  "IIWalletAdapter_signTransaction W (IIWalletAdapter_constructor i) (\<lambda>r. Legacy t) 0 =
     (case Transaction_partial_sign_with_identity W t [i] of
        (Inl e, t', unhandled, pending) \<Rightarrow>
          (Inl e, (\<lambda>r. Legacy t)(0 := Legacy t'), unhandled, pending)
      | (Inr _, t', unhandled, pending) \<Rightarrow>
          (Inr 0, (\<lambda>r. Legacy t)(0 := Legacy t'), unhandled, pending))"
  by (simp add: IIWalletAdapter_signTransaction_def IIWalletAdapter_constructor_def)

section \<open>Deduplicated signing\<close>




section \<open>Errors of the slot assignment do not reach the caller\<close>

text \<open>
  Once the message compiled, the promise of the legacy sign operation is fulfilled,
  whatever \<open>_addSignature\<close> throws for any identity, now or later.
\<close>

lemma legacy_sign_fulfilled:
  assumes "ids \<noteq> []" and "compileMessage W t = Inr m"
  shows "fst (Transaction_partial_sign_with_identity W t ids) = Inr ()"
  using legacy_sign_compiled [OF assms] by simp

lemma legacy_sign_result:
  assumes "ids \<noteq> []"
  shows "fst (Transaction_partial_sign_with_identity W t ids) =
    (case compileMessage W t of Inl reason \<Rightarrow> Inl (Error reason) | Inr m \<Rightarrow> Inr ())"
proof (cases "compileMessage W t")
  case (Inl reason)
  with legacy_sign_compile_fails [OF assms Inl] show ?thesis by simp
next
  case (Inr m)
  with legacy_sign_compiled [OF assms Inr] show ?thesis by simp
qed

lemma legacy_sign_lengths:
  assumes "\<forall>p\<in>set (signatures t). \<forall>x. signature p = Some x \<longrightarrow> length x = 64"
  shows "\<forall>p\<in>set (signatures (fst (snd (Transaction_partial_sign_with_identity W t ids)))).
           \<forall>x. signature p = Some x \<longrightarrow> length x = 64"
proof (cases "ids = []")
  case True
  with assms show ?thesis by (simp add: Transaction_partial_sign_with_identity_def)
next
  case False
  show ?thesis
  proof (cases "compileMessage W t")
    case (Inl reason)
    with legacy_sign_compile_fails [OF False Inl] assms show ?thesis by simp
  next
    case (Inr m)
    have "\<forall>p\<in>set (signatures (snd (Transaction_compile W t))).
        \<forall>x. signature p = Some x \<longrightarrow> length x = 64"
      using compile_slots [OF Inr] assms by auto
    from resume_all_lengths [OF this] legacy_sign_compiled [OF False Inr]
    show ?thesis by (simp add: forEach_sign_resume)
  qed
qed

text \<open>
  C1, at a failing input. The adapter holds the identity of \<open>keyX\<close>, which is no
  required signer of the example transaction. \<open>_addSignature\<close> throws
  \<open>unknown signer: <keyX>\<close>, but inside a callback whose promise \<open>forEach\<close> drops: the
  sign operation and \<open>signTransaction\<close> return normally, and the error is an unhandled
  rejection.
\<close>

theorem legacy_unknown_signer_not_raised:
  "Transaction_addSignature ex_web3
     (ex_tx\<lparr>signatures :=
        [\<lparr>signature = None, publicKey = keyA\<rparr>, \<lparr>signature = None, publicKey = keyB\<rparr>]\<rparr>)
     (getPublicKey idX) (awaited (sign idX (serialize ex_web3 ex_message)))
     = Inl (Error ''unknown signer: GgBaCs3NCBuZN12kCJgAW63ydqohFkHEdfdEXBPzLHq'')
   \<and> Transaction_partial_sign_with_identity ex_web3 ex_tx [idX] =
     (Inr (),
      ex_tx\<lparr>signatures :=
        [\<lparr>signature = None, publicKey = keyA\<rparr>, \<lparr>signature = None, publicKey = keyB\<rparr>]\<rparr>,
      [Error ''unknown signer: GgBaCs3NCBuZN12kCJgAW63ydqohFkHEdfdEXBPzLHq''], [])
   \<and> IIWalletAdapter_signTransaction ex_web3 (IIWalletAdapter_constructor idX)
       (\<lambda>r. Legacy ex_tx) 0 =
     (Inr 0,
      (\<lambda>r. Legacy ex_tx)
        (0 := Legacy (ex_tx\<lparr>signatures :=
           [\<lparr>signature = None, publicKey = keyA\<rparr>, \<lparr>signature = None, publicKey = keyB\<rparr>]\<rparr>)),
      [Error ''unknown signer: GgBaCs3NCBuZN12kCJgAW63ydqohFkHEdfdEXBPzLHq''], [])"
proof -
  have s: "toBase58 ex_web3 keyX = ''GgBaCs3NCBuZN12kCJgAW63ydqohFkHEdfdEXBPzLHq''"
    using ex_keys_differ by (simp add: ex_web3_def ex_toBase58_def)
  have "Transaction_addSignature ex_web3
     (ex_tx\<lparr>signatures :=
        [\<lparr>signature = None, publicKey = keyA\<rparr>, \<lparr>signature = None, publicKey = keyB\<rparr>]\<rparr>)
     (getPublicKey idX) (awaited (sign idX (serialize ex_web3 ex_message)))
     = Inl (Error ''unknown signer: GgBaCs3NCBuZN12kCJgAW63ydqohFkHEdfdEXBPzLHq'')"
    using ex_keys_differ by (simp add: addSignature_eq equals_def s idX_def)
  then show ?thesis
    by (simp add: ex_store_update ex_sign_stranger) (simp add: ex_tx_compiled_def)
qed

text \<open>
  C6, at a failing input. The adapter holds an identity whose signatures have 63
  bytes. \<open>_addSignature\<close> throws \<open>Assertion failed.\<close> before it assigns, so no slot is
  written; but the throw rejects a dropped promise only, and the sign operation and
  \<open>signTransaction\<close> return normally.
\<close>

theorem short_signature_not_raised:
  "length (awaited (sign idShort (serialize ex_web3 ex_message))) = 63
   \<and> Transaction_addSignature ex_web3
       (ex_tx\<lparr>signatures :=
          [\<lparr>signature = None, publicKey = keyA\<rparr>, \<lparr>signature = None, publicKey = keyB\<rparr>]\<rparr>)
       (getPublicKey idShort) (awaited (sign idShort (serialize ex_web3 ex_message)))
       = Inl (Error ''Assertion failed.'')
   \<and> Transaction_partial_sign_with_identity ex_web3 ex_tx [idShort] =
     (Inr (),
      ex_tx\<lparr>signatures :=
        [\<lparr>signature = None, publicKey = keyA\<rparr>, \<lparr>signature = None, publicKey = keyB\<rparr>]\<rparr>,
      [Error ''Assertion failed.''], [])
   \<and> IIWalletAdapter_signTransaction ex_web3 (IIWalletAdapter_constructor idShort)
       (\<lambda>r. Legacy ex_tx) 0 =
     (Inr 0,
      (\<lambda>r. Legacy ex_tx)
        (0 := Legacy (ex_tx\<lparr>signatures :=
           [\<lparr>signature = None, publicKey = keyA\<rparr>, \<lparr>signature = None, publicKey = keyB\<rparr>]\<rparr>)),
      [Error ''Assertion failed.''], [])"
proof -
  have "length (awaited (sign idShort (serialize ex_web3 ex_message))) = 63"
    by (simp add: idShort_def)
  then show ?thesis
    by (simp add: ex_store_update ex_sign_short addSignature_eq) (simp add: ex_tx_compiled_def)
qed

section \<open>What signTransaction touches\<close>

lemma findIndex_first_index:
  assumes "\<exists>x\<in>set xs. P x"
  shows "\<exists>n<length xs. P (xs ! n) \<and> (\<forall>j<n. \<not> P (xs ! j)) \<and> nat (findIndex P xs) = n"
proof -
  from assms have nn: "0 \<le> findIndex P xs"
    using findIndex_neg_iff [of P xs] by auto
  define n where "n = nat (findIndex P xs)"
  with nn have fi: "findIndex P xs = int n" by simp
  from findIndex_nonneg [OF nn] have "n < length xs" "P (xs ! n)"
    by (simp_all add: n_def)
  moreover have "\<forall>j<n. \<not> P (xs ! j)"
    using findIndex_first [OF fi] by blast
  ultimately show ?thesis using n_def by blast
qed

lemma versioned_single:
  "VersionedTransaction_sign_with_identity W v [i] =
     (if getPublicKey i \<in> set (slice0 (staticAccountKeys (message v))
                                (numRequiredSignatures (header (message v))))
      then (Inr (),
            v\<lparr>vsignatures :=
              array_set (vsignatures v)
                (nat (findIndex (\<lambda>pubkey. equals pubkey (getPublicKey i))
                   (slice0 (staticAccountKeys (message v))
                      (numRequiredSignatures (header (message v))))))
                (awaited (sign i (serialize W (message v))))\<rparr>)
      else (Inl (Error (''Cannot sign with non signer key '' @ toBase58 W (getPublicKey i))), v))"
proof -
  let ?ks = "slice0 (staticAccountKeys (message v)) (numRequiredSignatures (header (message v)))"
  have "findIndex (\<lambda>pubkey. equals pubkey (getPublicKey i)) ?ks < 0
      \<longleftrightarrow> getPublicKey i \<notin> set ?ks"
    by (auto simp: findIndex_neg_iff equals_def)
  then show ?thesis
    by (auto simp: VersionedTransaction_sign_with_identity_def Let_def)
qed

lemma resume_slot:
  assumes "map publicKey (signatures c) = K"
  shows "resume W c (AddSignature k s) =
     (if length s = 64 \<and> k \<in> set K
      then (c\<lparr>signatures :=
              (signatures c)[nat (findIndex (equals k) K) :=
                 \<lparr>signature = Some s, publicKey = k\<rparr>]\<rparr>, [])
      else (c, [if length s \<noteq> 64 then Error ''Assertion failed.''
                else Error (''unknown signer: '' @ toBase58 W k)]))"
proof (cases "k \<in> set K")
  case False
  then have "findIndex (equals k) K < 0"
    by (auto simp: findIndex_neg_iff equals_def)
  with False assms show ?thesis by (simp add: resume_eq)
next
  case True
  then obtain n where n: "findIndex (equals k) K = int n"
    using findIndex_member by blast
  from findIndex_key [OF n] assms have "n < length (signatures c)" "publicKey (signatures c ! n) = k"
    by (metis length_map, metis length_map nth_map)
  then have "(signatures c ! n)\<lparr>signature := Some s\<rparr> = \<lparr>signature = Some s, publicKey = k\<rparr>"
    by (cases "signatures c ! n") simp
  with True n assms show ?thesis by (simp add: resume_eq)
qed

lemma compile_as_update:
  assumes "compileMessage W t = Inr m"
  shows "snd (Transaction_compile W t) =
    t\<lparr>signatures :=
      (if map publicKey (signatures t) = slice0 (accountKeys m) (numRequiredSignatures (header m))
       then signatures t
       else map (\<lambda>k. \<lparr>signature = None, publicKey = k\<rparr>)
              (slice0 (accountKeys m) (numRequiredSignatures (header m))))\<rparr>"
  using compile_slots [OF assms] by simp

lemma legacy_sign_single:
  assumes "compileMessage W t = Inr m"
  shows "Transaction_partial_sign_with_identity W t [i] =
    (Inr (),
     if is_Fulfilled (sign i (serialize W m))
     then (fst (resume W (snd (Transaction_compile W t)) (callback (serialize W m) i)),
           snd (resume W (snd (Transaction_compile W t)) (callback (serialize W m) i)), [])
     else (snd (Transaction_compile W t), [], [callback (serialize W m) i]))"
proof -
  have ne: "[i] \<noteq> []" by simp
  have d: "dedupe W {} [] [i] = [i]" by simp
  show ?thesis
    unfolding legacy_sign_compiled [OF ne assms] d forEach_sign_resume
    by (simp add: case_prod_unfold del: resume.simps)
qed

text \<open>
  C7. An adapter that holds no identity fails with \<open>WalletNotConnectedError\<close> and leaves
  the store as it is. An adapter that holds one either fails or returns the very
  reference it received, and every other object of the store is untouched. The object
  at that reference is still a transaction of the same kind, and only its signature
  slots may differ from the ones received.

  For a versioned transaction: if the identity's key is among the required signers,
  the call returns the reference and the signature array is the one received with
  the signature written at the first position of that key (the array extended when it
  is shorter); otherwise the call fails and the array is unchanged.

  For a legacy transaction: if \<open>compileMessage\<close> throws, the call fails with that error
  and the slots are unchanged. Otherwise the call returns the reference, and the slots
  are first those the compile step leaves (kept, or reset to the required signers).
  If the signature was there when awaited, it is written into the first slot declaring
  the identity's key before the caller resumes (or the throw of \<open>_addSignature\<close> is an
  unhandled rejection and the slots stay). If the signature arrives later, the caller
  finds the slots as the compile step left them and one continuation pending; when
  that continuation runs, it writes the same slot of the same object, and nothing else
  of the store or of the transaction changes.
\<close>

theorem signTransaction_frame:
  "(identity a = None \<longrightarrow>
      IIWalletAdapter_signTransaction W a h r = (Inl WalletNotConnectedError, h, [], []))
   \<and> (\<forall>i. identity a = Some i \<longrightarrow>
      (case IIWalletAdapter_signTransaction W a h r of
         (res, h', unhandled, pending) \<Rightarrow>
           (res = Inr r \<or> (\<exists>e. res = Inl e))
           \<and> (\<forall>r'. r' \<noteq> r \<longrightarrow> h' r' = h r')
           \<and> (case h r of
                Versioned v \<Rightarrow>
                  (let ks = slice0 (staticAccountKeys (message v))
                              (numRequiredSignatures (header (message v)));
                       k = getPublicKey i;
                       s = awaited (sign i (serialize W (message v)))
                   in unhandled = [] \<and> pending = []
                      \<and> (\<exists>v'. h' r = Versioned v' \<and> message v' = message v
                            \<and> (if k \<in> set ks
                               then res = Inr r
                                 \<and> (\<exists>n<length ks. ks ! n = k \<and> (\<forall>j<n. ks ! j \<noteq> k)
                                       \<and> vsignatures v' =
                                           (if n < length (vsignatures v)
                                            then (vsignatures v)[n := Some s]
                                            else vsignatures v
                                                   @ replicate (n - length (vsignatures v)) None
                                                   @ [Some s]))
                               else res = Inl (Error (''Cannot sign with non signer key ''
                                                      @ toBase58 W k))
                                 \<and> vsignatures v' = vsignatures v)))
              | Legacy t \<Rightarrow>
                  (\<exists>t'. h' r = Legacy t'
                     \<and> feePayer t' = feePayer t \<and> instructions t' = instructions t
                     \<and> recentBlockhash t' = recentBlockhash t
                     \<and> (case compileMessage W t of
                          Inl reason \<Rightarrow>
                            res = Inl (Error reason) \<and> signatures t' = signatures t
                            \<and> unhandled = [] \<and> pending = []
                        | Inr m \<Rightarrow>
                            (let K = slice0 (accountKeys m) (numRequiredSignatures (header m));
                                 S0 = (if map publicKey (signatures t) = K then signatures t
                                       else map (\<lambda>k. \<lparr>signature = None, publicKey = k\<rparr>) K);
                                 k = getPublicKey i;
                                 s = awaited (sign i (serialize W m));
                                 reject = (if length s \<noteq> 64 then Error ''Assertion failed.''
                                           else Error (''unknown signer: '' @ toBase58 W k))
                             in res = Inr r
                                \<and> (if is_Fulfilled (sign i (serialize W m))
                                   then pending = []
                                     \<and> (if length s = 64 \<and> k \<in> set K
                                        then unhandled = []
                                          \<and> (\<exists>n<length K. K ! n = k \<and> (\<forall>j<n. K ! j \<noteq> k)
                                                \<and> signatures t' =
                                                    S0[n := \<lparr>signature = Some s, publicKey = k\<rparr>])
                                        else unhandled = [reject] \<and> signatures t' = S0)
                                   else pending = [AddSignature k s] \<and> unhandled = []
                                     \<and> signatures t' = S0
                                     \<and> (case resume_in_store W h' r (AddSignature k s) of
                                          (h'', rejected) \<Rightarrow>
                                            (\<forall>r'. r' \<noteq> r \<longrightarrow> h'' r' = h r')
                                            \<and> (\<exists>t''. h'' r = Legacy t''
                                                  \<and> feePayer t'' = feePayer t
                                                  \<and> instructions t'' = instructions t
                                                  \<and> recentBlockhash t'' = recentBlockhash t
                                                  \<and> (if length s = 64 \<and> k \<in> set K
                                                     then rejected = []
                                                       \<and> (\<exists>n<length K. K ! n = k
                                                             \<and> (\<forall>j<n. K ! j \<noteq> k)
                                                             \<and> signatures t'' =
                                                                 S0[n := \<lparr>signature = Some s,
                                                                          publicKey = k\<rparr>])
                                                     else rejected = [reject]
                                                       \<and> signatures t'' = S0))))))))))"
proof (intro conjI allI impI)
  assume "identity a = None"
  then show "IIWalletAdapter_signTransaction W a h r = (Inl WalletNotConnectedError, h, [], [])"
    by (simp add: IIWalletAdapter_signTransaction_def)
next
  fix i assume i: "identity a = Some i"
  let ?goal = "\<lambda>x. case x of
         (res, h', unhandled, pending) \<Rightarrow>
           (res = Inr r \<or> (\<exists>e. res = Inl e))
           \<and> (\<forall>r'. r' \<noteq> r \<longrightarrow> h' r' = h r')
           \<and> (case h r of
                Versioned v \<Rightarrow>
                  (let ks = slice0 (staticAccountKeys (message v))
                              (numRequiredSignatures (header (message v)));
                       k = getPublicKey i;
                       s = awaited (sign i (serialize W (message v)))
                   in unhandled = [] \<and> pending = []
                      \<and> (\<exists>v'. h' r = Versioned v' \<and> message v' = message v
                            \<and> (if k \<in> set ks
                               then res = Inr r
                                 \<and> (\<exists>n<length ks. ks ! n = k \<and> (\<forall>j<n. ks ! j \<noteq> k)
                                       \<and> vsignatures v' =
                                           (if n < length (vsignatures v)
                                            then (vsignatures v)[n := Some s]
                                            else vsignatures v
                                                   @ replicate (n - length (vsignatures v)) None
                                                   @ [Some s]))
                               else res = Inl (Error (''Cannot sign with non signer key ''
                                                      @ toBase58 W k))
                                 \<and> vsignatures v' = vsignatures v)))
              | Legacy t \<Rightarrow>
                  (\<exists>t'. h' r = Legacy t'
                     \<and> feePayer t' = feePayer t \<and> instructions t' = instructions t
                     \<and> recentBlockhash t' = recentBlockhash t
                     \<and> (case compileMessage W t of
                          Inl reason \<Rightarrow>
                            res = Inl (Error reason) \<and> signatures t' = signatures t
                            \<and> unhandled = [] \<and> pending = []
                        | Inr m \<Rightarrow>
                            (let K = slice0 (accountKeys m) (numRequiredSignatures (header m));
                                 S0 = (if map publicKey (signatures t) = K then signatures t
                                       else map (\<lambda>k. \<lparr>signature = None, publicKey = k\<rparr>) K);
                                 k = getPublicKey i;
                                 s = awaited (sign i (serialize W m));
                                 reject = (if length s \<noteq> 64 then Error ''Assertion failed.''
                                           else Error (''unknown signer: '' @ toBase58 W k))
                             in res = Inr r
                                \<and> (if is_Fulfilled (sign i (serialize W m))
                                   then pending = []
                                     \<and> (if length s = 64 \<and> k \<in> set K
                                        then unhandled = []
                                          \<and> (\<exists>n<length K. K ! n = k \<and> (\<forall>j<n. K ! j \<noteq> k)
                                                \<and> signatures t' =
                                                    S0[n := \<lparr>signature = Some s, publicKey = k\<rparr>])
                                        else unhandled = [reject] \<and> signatures t' = S0)
                                   else pending = [AddSignature k s] \<and> unhandled = []
                                     \<and> signatures t' = S0
                                     \<and> (case resume_in_store W h' r (AddSignature k s) of
                                          (h'', rejected) \<Rightarrow>
                                            (\<forall>r'. r' \<noteq> r \<longrightarrow> h'' r' = h r')
                                            \<and> (\<exists>t''. h'' r = Legacy t''
                                                  \<and> feePayer t'' = feePayer t
                                                  \<and> instructions t'' = instructions t
                                                  \<and> recentBlockhash t'' = recentBlockhash t
                                                  \<and> (if length s = 64 \<and> k \<in> set K
                                                     then rejected = []
                                                       \<and> (\<exists>n<length K. K ! n = k
                                                             \<and> (\<forall>j<n. K ! j \<noteq> k)
                                                             \<and> signatures t'' =
                                                                 S0[n := \<lparr>signature = Some s,
                                                                          publicKey = k\<rparr>])
                                                     else rejected = [reject]
                                                       \<and> signatures t'' = S0))))))))"
  show "?goal (IIWalletAdapter_signTransaction W a h r)"
  proof (cases "h r")
    case (Versioned v)
    let ?ks = "slice0 (staticAccountKeys (message v)) (numRequiredSignatures (header (message v)))"
    let ?k = "getPublicKey i"
    let ?s = "awaited (sign i (serialize W (message v)))"
    show ?thesis
    proof (cases "?k \<in> set ?ks")
      case False
      have "h(r := Versioned v) = h" using Versioned by auto
      with False i Versioned
      have "IIWalletAdapter_signTransaction W a h r =
          (Inl (Error (''Cannot sign with non signer key '' @ toBase58 W ?k)), h, [], [])"
        by (simp add: IIWalletAdapter_signTransaction_def versioned_single)
      with False Versioned show ?thesis by (simp add: Let_def)
    next
      case True
      then have "\<exists>x\<in>set ?ks. equals x ?k" by (simp add: equals_def)
      from findIndex_first_index [OF this]
      obtain n where n: "n < length ?ks" "?ks ! n = ?k" "\<forall>j<n. ?ks ! j \<noteq> ?k"
        "nat (findIndex (\<lambda>pubkey. equals pubkey ?k) ?ks) = n"
        by (auto simp: equals_def)
      define vs' where "vs' = (if n < length (vsignatures v) then (vsignatures v)[n := Some ?s]
        else vsignatures v @ replicate (n - length (vsignatures v)) None @ [Some ?s])"
      from True i Versioned n(4)
      have run: "IIWalletAdapter_signTransaction W a h r =
          (Inr r, h(r := Versioned (v\<lparr>vsignatures := vs'\<rparr>)), [], [])"
        by (simp add: IIWalletAdapter_signTransaction_def versioned_single array_set_def vs'_def)
      have ex: "\<exists>n<length ?ks. ?ks ! n = ?k \<and> (\<forall>j<n. ?ks ! j \<noteq> ?k)
          \<and> vs' = (if n < length (vsignatures v) then (vsignatures v)[n := Some ?s]
            else vsignatures v @ replicate (n - length (vsignatures v)) None @ [Some ?s])"
        using n(1,2,3) vs'_def by blast
      show ?thesis
        unfolding run using True Versioned ex by (simp add: Let_def)
    qed
  next
    case (Legacy t)
    show ?thesis
    proof (cases "compileMessage W t")
      case (Inl reason)
      have "h(r := Legacy t) = h" using Legacy by auto
      with i Legacy legacy_sign_compile_fails [OF _ Inl, of "[i]"]
      have "IIWalletAdapter_signTransaction W a h r = (Inl (Error reason), h, [], [])"
        by (simp add: IIWalletAdapter_signTransaction_def)
      with Legacy Inl show ?thesis by simp
    next
      case (Inr m)
      let ?K = "slice0 (accountKeys m) (numRequiredSignatures (header m))"
      let ?S0 = "if map publicKey (signatures t) = ?K then signatures t
                 else map (\<lambda>k. \<lparr>signature = None, publicKey = k\<rparr>) ?K"
      let ?k = "getPublicKey i"
      let ?s = "awaited (sign i (serialize W m))"
      let ?reject = "if length ?s \<noteq> 64 then Error ''Assertion failed.''
                     else Error (''unknown signer: '' @ toBase58 W ?k)"
      define c where "c = t\<lparr>signatures := ?S0\<rparr>"
      have cc: "snd (Transaction_compile W t) = c"
        using compile_as_update [OF Inr] by (simp add: c_def)
      have ck: "map publicKey (signatures c) = ?K"
        using compile_result(3) [OF Inr] cc by simp
      have cs: "signatures c = ?S0" by (simp add: c_def)
      have cf: "feePayer c = feePayer t" "instructions c = instructions t"
        "recentBlockhash c = recentBlockhash t"
        by (simp_all add: c_def)
      have cb: "callback (serialize W m) i = AddSignature ?k ?s"
        by (simp add: callback_def)
      define w where "w = c\<lparr>signatures := ?S0[nat (findIndex (equals ?k) ?K) :=
          \<lparr>signature = Some ?s, publicKey = ?k\<rparr>]\<rparr>"
      have res: "resume W c (AddSignature ?k ?s) =
          (if length ?s = 64 \<and> ?k \<in> set ?K then (w, []) else (c, [?reject]))"
        using resume_slot [OF ck, of W ?k ?s] by (simp only: w_def cs)
      have wf: "feePayer w = feePayer t" "instructions w = instructions t"
        "recentBlockhash w = recentBlockhash t"
        by (simp_all add: w_def c_def)
      have ex: "\<exists>n<length ?K. ?K ! n = ?k \<and> (\<forall>j<n. ?K ! j \<noteq> ?k)
          \<and> signatures w = ?S0[n := \<lparr>signature = Some ?s, publicKey = ?k\<rparr>]"
        if "?k \<in> set ?K"
      proof -
        from that have "\<exists>x\<in>set ?K. equals ?k x" by (simp add: equals_def)
        from findIndex_first_index [OF this]
        obtain n where n: "n < length ?K" "equals ?k (?K ! n)" "\<forall>j<n. \<not> equals ?k (?K ! j)"
          "nat (findIndex (equals ?k) ?K) = n"
          by blast
        from n(2,3) have "?K ! n = ?k" "\<forall>j<n. ?K ! j \<noteq> ?k"
          by (auto simp: equals_def)
        with n(1,4) show ?thesis by (auto simp: w_def)
      qed
      have single: "Transaction_partial_sign_with_identity W t [i] =
          (Inr (),
           if is_Fulfilled (sign i (serialize W m))
           then (fst (resume W c (AddSignature ?k ?s)), snd (resume W c (AddSignature ?k ?s)), [])
           else (c, [], [AddSignature ?k ?s]))"
        using legacy_sign_single [OF Inr, of i] by (simp only: cc cb)
      show ?thesis
      proof (cases "is_Fulfilled (sign i (serialize W m))")
        case True
        show ?thesis
        proof (cases "length ?s = 64 \<and> ?k \<in> set ?K")
          case valid: True
          with True i Legacy single res
          have run: "IIWalletAdapter_signTransaction W a h r = (Inr r, h(r := Legacy w), [], [])"
            by (simp add: IIWalletAdapter_signTransaction_def del: resume.simps)
          from valid ex have "\<exists>n<length ?K. ?K ! n = ?k \<and> (\<forall>j<n. ?K ! j \<noteq> ?k)
              \<and> signatures w = ?S0[n := \<lparr>signature = Some ?s, publicKey = ?k\<rparr>]"
            by blast
          then show ?thesis
            unfolding run using True valid Legacy Inr wf by (simp add: Let_def)
        next
          case invalid: False
          with True i Legacy single res
          have run: "IIWalletAdapter_signTransaction W a h r =
              (Inr r, h(r := Legacy c), [?reject], [])"
            by (simp add: IIWalletAdapter_signTransaction_def del: resume.simps)
          show ?thesis
            unfolding run using True invalid Legacy Inr cf cs by (simp add: Let_def)
        qed
      next
        case False
        with i Legacy single
        have run: "IIWalletAdapter_signTransaction W a h r =
            (Inr r, h(r := Legacy c), [], [AddSignature ?k ?s])"
          by (simp add: IIWalletAdapter_signTransaction_def del: resume.simps)
        have land: "resume_in_store W (h(r := Legacy c)) r (AddSignature ?k ?s) =
            (if length ?s = 64 \<and> ?k \<in> set ?K then (h(r := Legacy w), [])
             else (h(r := Legacy c), [?reject]))"
          using res by (simp add: resume_in_store_def del: resume.simps)
        show ?thesis
        proof (cases "length ?s = 64 \<and> ?k \<in> set ?K")
          case valid: True
          from valid ex have "\<exists>n<length ?K. ?K ! n = ?k \<and> (\<forall>j<n. ?K ! j \<noteq> ?k)
              \<and> signatures w = ?S0[n := \<lparr>signature = Some ?s, publicKey = ?k\<rparr>]"
            by blast
          then show ?thesis
            unfolding run using False valid Legacy Inr cf cs wf land by (simp add: Let_def)
        next
          case invalid: False
          show ?thesis
            unfolding run using False invalid Legacy Inr cf cs land
            by (cases "length ?s = 64") (simp_all add: Let_def)
        qed
      qed
    qed
  qed
qed

lemma ex_versioned_run:
  "IIWalletAdapter_signTransaction ex_web3 (IIWalletAdapter_constructor idB)
       (\<lambda>r. Versioned ex_vtx) 0 =
     (Inr 0,
      (\<lambda>r. Versioned ex_vtx)
        (0 := Versioned (ex_vtx\<lparr>vsignatures := [Some (replicate 64 0), Some (replicate 64 11)]\<rparr>)),
      [], [])"
proof -
  have ks: "slice0 (staticAccountKeys (message ex_vtx))
      (numRequiredSignatures (header (message ex_vtx))) = [keyA, keyB]"
    by (simp add: ex_vtx_def ex_message_def staticAccountKeys_def slice0_def)
  have fi: "findIndex (\<lambda>pubkey. equals pubkey keyB) [keyA, keyB] = 1"
    using ex_keys_differ by (simp add: equals_def)
  have v: "VersionedTransaction_sign_with_identity ex_web3 ex_vtx [idB] =
      (Inr (), ex_vtx\<lparr>vsignatures := [Some (replicate 64 0), Some (replicate 64 11)]\<rparr>)"
    unfolding versioned_single ks
    by (simp add: idB_def fi array_set_def del: findIndex.simps) (simp add: ex_vtx_def)
  show ?thesis
    by (simp add: IIWalletAdapter_signTransaction_def IIWalletAdapter_constructor_def v)
qed

lemma ex_legacy_runs:
  "IIWalletAdapter_signTransaction ex_web3 (IIWalletAdapter_constructor idA)
       (\<lambda>r. Legacy ex_tx) 0 =
     (Inr 0,
      (\<lambda>r. Legacy ex_tx)
        (0 := Legacy (ex_tx\<lparr>signatures :=
           [\<lparr>signature = Some (replicate 64 10), publicKey = keyA\<rparr>,
            \<lparr>signature = None, publicKey = keyB\<rparr>]\<rparr>)),
      [], [])"
  "IIWalletAdapter_signTransaction ex_web3 (IIWalletAdapter_constructor idLate)
       (\<lambda>r. Legacy ex_tx) 0 =
     (Inr 0, (\<lambda>r. Legacy ex_tx)(0 := Legacy ex_tx_compiled), [],
      [AddSignature keyA (replicate 64 10)])"
  "resume_in_store ex_web3 ((\<lambda>r. Legacy ex_tx)(0 := Legacy ex_tx_compiled)) 0
       (AddSignature keyA (replicate 64 10)) =
     ((\<lambda>r. Legacy ex_tx)
        (0 := Legacy (ex_tx\<lparr>signatures :=
           [\<lparr>signature = Some (replicate 64 10), publicKey = keyA\<rparr>,
            \<lparr>signature = None, publicKey = keyB\<rparr>]\<rparr>)),
      [])"
  by (simp_all add: ex_store_update ex_sign_first ex_sign_late resume_in_store_def ex_resume
      del: resume.simps)

theorem signTransaction_frame_witness:
  "identity \<lparr>identity = None, emitted = []\<rparr> = None
   \<and> IIWalletAdapter_signTransaction ex_web3 \<lparr>identity = None, emitted = []\<rparr>
       (\<lambda>r. Legacy ex_tx) 0 = (Inl WalletNotConnectedError, \<lambda>r. Legacy ex_tx, [], [])
   \<and> identity (IIWalletAdapter_constructor idB) = Some idB
   \<and> IIWalletAdapter_signTransaction ex_web3 (IIWalletAdapter_constructor idB)
       (\<lambda>r. Versioned ex_vtx) 0 =
     (Inr 0,
      (\<lambda>r. Versioned ex_vtx)
        (0 := Versioned (ex_vtx\<lparr>vsignatures := [Some (replicate 64 0), Some (replicate 64 11)]\<rparr>)),
      [], [])
   \<and> message (ex_vtx\<lparr>vsignatures := [Some (replicate 64 0), Some (replicate 64 11)]\<rparr>)
       = message ex_vtx
   \<and> identity (IIWalletAdapter_constructor idA) = Some idA
   \<and> IIWalletAdapter_signTransaction ex_web3 (IIWalletAdapter_constructor idA)
       (\<lambda>r. Legacy ex_tx) 0 =
     (Inr 0,
      (\<lambda>r. Legacy ex_tx)
        (0 := Legacy (ex_tx\<lparr>signatures :=
           [\<lparr>signature = Some (replicate 64 10), publicKey = keyA\<rparr>,
            \<lparr>signature = None, publicKey = keyB\<rparr>]\<rparr>)),
      [], [])
   \<and> feePayer (ex_tx\<lparr>signatures :=
           [\<lparr>signature = Some (replicate 64 10), publicKey = keyA\<rparr>,
            \<lparr>signature = None, publicKey = keyB\<rparr>]\<rparr>) = feePayer ex_tx
   \<and> identity (IIWalletAdapter_constructor idLate) = Some idLate
   \<and> IIWalletAdapter_signTransaction ex_web3 (IIWalletAdapter_constructor idLate)
       (\<lambda>r. Legacy ex_tx) 0 =
     (Inr 0, (\<lambda>r. Legacy ex_tx)(0 := Legacy ex_tx_compiled), [],
      [AddSignature keyA (replicate 64 10)])
   \<and> resume_in_store ex_web3 ((\<lambda>r. Legacy ex_tx)(0 := Legacy ex_tx_compiled)) 0
       (AddSignature keyA (replicate 64 10)) =
     ((\<lambda>r. Legacy ex_tx)
        (0 := Legacy (ex_tx\<lparr>signatures :=
           [\<lparr>signature = Some (replicate 64 10), publicKey = keyA\<rparr>,
            \<lparr>signature = None, publicKey = keyB\<rparr>]\<rparr>)),
      [])
   \<and> signatures ex_tx_compiled =
       [\<lparr>signature = None, publicKey = keyA\<rparr>, \<lparr>signature = None, publicKey = keyB\<rparr>]"
proof -
  have n: "identity \<lparr>identity = None, emitted = []\<rparr> = None"
    by simp
  have ident: "identity (IIWalletAdapter_constructor i) = Some i" for i
    by (simp add: IIWalletAdapter_constructor_def)
  have none: "IIWalletAdapter_signTransaction ex_web3 \<lparr>identity = None, emitted = []\<rparr>
       (\<lambda>r. Legacy ex_tx) 0 = (Inl WalletNotConnectedError, \<lambda>r. Legacy ex_tx, [], [])"
    using n
    by (rule signTransaction_frame
      [of "\<lparr>identity = None, emitted = []\<rparr>" ex_web3 "\<lambda>r. Legacy ex_tx" 0,
        THEN conjunct1, THEN mp])
  note versioned = signTransaction_frame
      [of "IIWalletAdapter_constructor idB" ex_web3 "\<lambda>r. Versioned ex_vtx" 0,
        THEN conjunct2, THEN spec, THEN mp, OF ident, unfolded ex_versioned_run prod.case]
  have vm: "message (ex_vtx\<lparr>vsignatures := [Some (replicate 64 0), Some (replicate 64 11)]\<rparr>)
       = message ex_vtx"
    using versioned by simp
  note prompt = signTransaction_frame
      [of "IIWalletAdapter_constructor idA" ex_web3 "\<lambda>r. Legacy ex_tx" 0,
        THEN conjunct2, THEN spec, THEN mp, OF ident, unfolded ex_legacy_runs(1) prod.case]
  have pf: "feePayer (ex_tx\<lparr>signatures :=
           [\<lparr>signature = Some (replicate 64 10), publicKey = keyA\<rparr>,
            \<lparr>signature = None, publicKey = keyB\<rparr>]\<rparr>) = feePayer ex_tx"
    using prompt by simp
  note late = signTransaction_frame
      [of "IIWalletAdapter_constructor idLate" ex_web3 "\<lambda>r. Legacy ex_tx" 0,
        THEN conjunct2, THEN spec, THEN mp, OF ident, unfolded ex_legacy_runs(2) prod.case]
  have ls: "signatures ex_tx_compiled =
       [\<lparr>signature = None, publicKey = keyA\<rparr>, \<lparr>signature = None, publicKey = keyB\<rparr>]"
    using late by (simp add: ex_tx_compiled_def)
  from n none ident vm pf ls ex_versioned_run ex_legacy_runs show ?thesis
    by (simp only: simp_thms)
qed

section \<open>Two signers, one after the other\<close>

text \<open>
  A second sign call, for the signer \<open>B\<close>, on a transaction whose slots declare the
  required signers \<open>A\<close> and \<open>B\<close>: whenever its callback runs, the slot of \<open>B\<close> holds the
  new signature, the slot of \<open>A\<close> holds what it held before the call, and the slot
  order is the same.
\<close>

lemma cosigner_signature_kept:
  assumes cm: "compileMessage W t = Inr m"
    and keys: "slice0 (accountKeys m) (numRequiredSignatures (header m)) = [A, B]"
    and slots: "map publicKey (signatures t) = [A, B]"
    and ab: "A \<noteq> B"
    and kb: "getPublicKey iB = B"
    and lb: "length (awaited (sign iB (serialize W m))) = 64"
    and run: "Transaction_partial_sign_with_identity W t [iB] = (res, t', unhandled, pending)"
    and arr: "mset arrival = mset pending"
    and fin: "resume_all W t' arrival = (F, rejected)"
  shows "signature (signatures F ! 0) = signature (signatures t ! 0)"
    and "signature (signatures F ! 1) = Some (awaited (sign iB (serialize W m)))"
    and "map publicKey (signatures F) = [A, B]"
proof -
  have ne: "[iB] \<noteq> []" by simp
  have d: "distinct (map (\<lambda>i. toBase58 W (getPublicKey i)) [iB])" by simp
  have v: "\<forall>i\<in>set [iB].
      getPublicKey i \<in> set (slice0 (accountKeys m) (numRequiredSignatures (header m)))
      \<and> length (awaited (sign i (serialize W m))) = 64"
    using kb lb keys by simp
  have fb: "findIndex (equals B) [A, B] = 1"
    using ab by (simp add: equals_def)
  have c: "signatures (snd (Transaction_compile W t)) = signatures t"
    using compile_result(2) [OF cm] keys slots by simp
  note s = legacy_sign_settled [OF ne cm d v run arr fin]
  from s(5) keys show "map publicKey (signatures F) = [A, B]" by simp
  from s(6) show "signature (signatures F ! 1) = Some (awaited (sign iB (serialize W m)))"
    by (simp add: keys kb fb del: findIndex.simps)
  from s(7) show "signature (signatures F ! 0) = signature (signatures t ! 0)"
    by (simp add: keys kb fb c del: findIndex.simps)
qed

text \<open>
  C9, at a failing input. The identity of \<open>keyA\<close> returns a signature that arrives after
  the caller has resumed. The sign operation and \<open>signTransaction\<close> return normally with
  the slot of \<open>keyA\<close> still unset: the write is left to a pending continuation, and only
  when that runs is the slot filled.
\<close>

theorem slot_unset_when_sign_returns:
  "getPublicKey idLate = keyA
   \<and> sign idLate (serialize ex_web3 ex_message) = Later (replicate 64 10)
   \<and> Transaction_partial_sign_with_identity ex_web3 ex_tx [idLate] =
     (Inr (),
      ex_tx\<lparr>signatures :=
        [\<lparr>signature = None, publicKey = keyA\<rparr>, \<lparr>signature = None, publicKey = keyB\<rparr>]\<rparr>,
      [], [AddSignature keyA (replicate 64 10)])
   \<and> IIWalletAdapter_signTransaction ex_web3 (IIWalletAdapter_constructor idLate)
       (\<lambda>r. Legacy ex_tx) 0 =
     (Inr 0,
      (\<lambda>r. Legacy ex_tx)
        (0 := Legacy (ex_tx\<lparr>signatures :=
           [\<lparr>signature = None, publicKey = keyA\<rparr>, \<lparr>signature = None, publicKey = keyB\<rparr>]\<rparr>)),
      [], [AddSignature keyA (replicate 64 10)])
   \<and> resume ex_web3
       (ex_tx\<lparr>signatures :=
          [\<lparr>signature = None, publicKey = keyA\<rparr>, \<lparr>signature = None, publicKey = keyB\<rparr>]\<rparr>)
       (AddSignature keyA (replicate 64 10)) =
     (ex_tx\<lparr>signatures :=
        [\<lparr>signature = Some (replicate 64 10), publicKey = keyA\<rparr>,
         \<lparr>signature = None, publicKey = keyB\<rparr>]\<rparr>, [])"
proof -
  have "getPublicKey idLate = keyA"
    "sign idLate (serialize ex_web3 ex_message) = Later (replicate 64 10)"
    by (simp_all add: idLate_def)
  moreover have "resume ex_web3
       (ex_tx\<lparr>signatures :=
          [\<lparr>signature = None, publicKey = keyA\<rparr>, \<lparr>signature = None, publicKey = keyB\<rparr>]\<rparr>)
       (AddSignature keyA (replicate 64 10)) =
     (ex_tx\<lparr>signatures :=
        [\<lparr>signature = Some (replicate 64 10), publicKey = keyA\<rparr>,
         \<lparr>signature = None, publicKey = keyB\<rparr>]\<rparr>, [])"
    using ex_resume(1) by (simp only: ex_tx_compiled_def)
  ultimately show ?thesis
    using ex_sign_late(1) ex_legacy_runs(2) by (simp only: ex_tx_compiled_def simp_thms)
qed

section \<open>The identity of a constructed adapter\<close>

lemma after_call_identity: "identity (after_call W a c) = identity a"
  by (cases c)
    (simp_all add: IIWalletAdapter_connect_def IIWalletAdapter_disconnect_def emit_def
      split: option.split)

lemma calls_identity: "identity (foldl (after_call W) a calls) = identity a"
  by (induction calls arbitrary: a) (simp_all add: after_call_identity)

lemma signTransaction_connected:
  assumes "identity a = Some i"
  shows "fst (IIWalletAdapter_signTransaction W a h r) \<noteq> Inl WalletNotConnectedError"
proof (cases "h r")
  case (Versioned v)
  with assms show ?thesis
    by (simp add: IIWalletAdapter_signTransaction_def versioned_single)
next
  case (Legacy t)
  obtain res t' u p where p: "Transaction_partial_sign_with_identity W t [i] = (res, t', u, p)"
    by (metis prod_cases4)
  from legacy_sign_result [of "[i]" W t] p
  have "res = (case compileMessage W t of Inl reason \<Rightarrow> Inl (Error reason) | Inr m \<Rightarrow> Inr ())"
    by simp
  with assms Legacy p show ?thesis
    by (cases "compileMessage W t") (simp_all add: IIWalletAdapter_signTransaction_def)
qed

text \<open>
  C10. After the constructor and any sequence of calls of \<open>connect\<close>, \<open>disconnect\<close> and
  \<open>signTransaction\<close>, the adapter still holds the identity it was constructed with:
  \<open>publicKey\<close> is that identity's key and not \<open>null\<close>, \<open>connect\<close> returns normally, and
  \<open>signTransaction\<close> does not fail with \<open>WalletNotConnectedError\<close>.
\<close>

theorem identity_never_cleared:
  "identity (foldl (after_call W) (IIWalletAdapter_constructor i) calls) = Some i
   \<and> IIWalletAdapter_publicKey (foldl (after_call W) (IIWalletAdapter_constructor i) calls)
       = Some (getPublicKey i)
   \<and> fst (IIWalletAdapter_connect (foldl (after_call W) (IIWalletAdapter_constructor i) calls))
       = Inr ()
   \<and> fst (IIWalletAdapter_signTransaction W
        (foldl (after_call W) (IIWalletAdapter_constructor i) calls) h r)
       \<noteq> Inl WalletNotConnectedError"
proof -
  have a: "identity (foldl (after_call W) (IIWalletAdapter_constructor i) calls) = Some i"
    by (simp add: calls_identity IIWalletAdapter_constructor_def)
  with signTransaction_connected [OF a, of W h r] show ?thesis
    by (simp add: IIWalletAdapter_publicKey_def IIWalletAdapter_connect_def)
qed

end
